theory Spec2Isabelle
  imports Main "HOL-Library.AList"
begin

section \<open>Documents, schemas and errors\<close>

text \<open>
  The parsed GraphQL structures that \<^verbatim>\<open>turms/referencer.py\<close> and
  \<^verbatim>\<open>turms/plugins/funcs.py\<close> read. Node classes of the GraphQL library become
  datatypes, one constructor per class that the \<^verbatim>\<open>isinstance\<close> chains test.
  Attributes that the parser may leave as \<^verbatim>\<open>None\<close> are options.
\<close>

datatype type_node =
    NamedTypeNode string
  | ListTypeNode type_node
  | NonNullTypeNode type_node

datatype selection =
    FieldNode "string option" string "selection list option"
  | FragmentSpreadNode string
  | InlineFragmentNode "string option" "selection list"

text \<open>
  \<^verbatim>\<open>FieldNode alias name selection_set\<close>, \<^verbatim>\<open>FragmentSpreadNode name\<close>,
  \<^verbatim>\<open>InlineFragmentNode type_condition selections\<close>. An inline fragment written
  without \<^verbatim>\<open>on T\<close> has no type condition.
\<close>

datatype operation_type = QUERY | MUTATION | SUBSCRIPTION

record operation_definition_node =
  name :: "string option"
  operation :: operation_type
  variable_definitions :: "type_node list"
  selection_set :: "selection list option"

datatype definition_node =
    FragmentDefinitionNode string string "selection list"
  | OperationDefinitionNode operation_definition_node
  | OtherDefinitionNode

text \<open>
  \<^verbatim>\<open>FragmentDefinitionNode name type_condition selections\<close>. Of a variable definition
  of an operation only its \<^verbatim>\<open>type\<close> is read, so \<open>variable_definitions\<close> lists
  the type nodes. An anonymous operation has no name.
\<close>

text \<open>
  Schema types. A named type is referred to by its kind and name; the field table of
  an object, interface or input object type is kept in the schema, keyed by the type's
  name, so that recursive schemas are finite values.
\<close>

datatype graphql_type =
    GraphQLScalarType string
  | GraphQLEnumType string
  | GraphQLInputObjectType string
  | GraphQLObjectType string
  | GraphQLInterfaceType string
  | GraphQLUnionType string
  | GraphQLNonNull graphql_type
  | GraphQLList graphql_type

record graphql_schema =
  type_map :: "string \<rightharpoonup> graphql_type"
  type_fields :: "string \<Rightarrow> (string \<rightharpoonup> graphql_type)"
  root_types :: "operation_type \<rightharpoonup> string"

datatype error =
    AttributeError
  | KeyError string
  | IndexError
  | AssertionError string
  | GraphQLError
  | UnknownType graphql_type
  | UnknownSubtype type_node
  | RegistryError string

text \<open>
  \<^verbatim>\<open>UnknownType t\<close> is \<^verbatim>\<open>Exception("Unknown Type", type(graphql_type), graphql_type)\<close>
  of the selection walker, \<^verbatim>\<open>UnknownSubtype n\<close> is
  \<^verbatim>\<open>Exception("Unknown Subtype", type(graphql_type), graphql_type)\<close> of the
  variable-type walker, whose argument is the type node. \<^verbatim>\<open>RegistryError c\<close> is the
  refusal of the class registry to refer to the class \<open>c\<close>.
\<close>

definition get_type :: "graphql_schema \<Rightarrow> string \<Rightarrow> graphql_type option" where
  "get_type schema n = type_map schema n"

text \<open>
  The \<^verbatim>\<open>.fields\<close> attribute: present on object, interface and input object types,
  an AttributeError on \<^verbatim>\<open>None\<close> and on every other kind.
\<close>

fun fields_of :: "graphql_schema \<Rightarrow> graphql_type option \<Rightarrow> error + (string \<rightharpoonup> graphql_type)" where
  "fields_of schema (Some (GraphQLObjectType n)) = Inr (type_fields schema n)"
| "fields_of schema (Some (GraphQLInterfaceType n)) = Inr (type_fields schema n)"
| "fields_of schema (Some (GraphQLInputObjectType n)) = Inr (type_fields schema n)"
| "fields_of schema _ = Inl AttributeError"

text \<open>Subscripting a field table: \<^verbatim>\<open>fields[name]\<close> raises KeyError on a missing key.\<close>

definition subscript :: "(string \<rightharpoonup> graphql_type) \<Rightarrow> string \<Rightarrow> error + graphql_type" where
  "subscript fs n = (case fs n of None \<Rightarrow> Inl (KeyError n) | Some t \<Rightarrow> Inr t)"

text \<open>\<^verbatim>\<open>node.selection_set.selections\<close>, for whichever node class is passed.\<close>

fun selections_of :: "selection \<Rightarrow> error + selection list" where
  "selections_of (FieldNode a n (Some ss)) = Inr ss"
| "selections_of (FieldNode a n None) = Inl AttributeError"
| "selections_of (FragmentSpreadNode n) = Inl AttributeError"
| "selections_of (InlineFragmentNode tc ss) = Inr ss"

lemma selections_of_size:
  "selections_of node = Inr ss \<Longrightarrow> size_list size ss < size node"
  by (cases node rule: selections_of.cases) auto

section \<open>The reference registry\<close>

record reference_registry =
  objects :: "string set"
  fragments :: "string set"
  enums :: "string set"
  inputs :: "string set"
  scalars :: "string set"
  operations :: "string set"

definition ReferenceRegistry :: reference_registry where
  "ReferenceRegistry = \<lparr> objects = {}, fragments = {}, enums = {}, inputs = {},
     scalars = {}, operations = {} \<rparr>"

definition register_type :: "string \<Rightarrow> reference_registry \<Rightarrow> reference_registry" where
  "register_type type_name r = r\<lparr> objects := insert type_name (objects r) \<rparr>"

definition register_fragment :: "string \<Rightarrow> reference_registry \<Rightarrow> reference_registry" where
  "register_fragment type_name r = r\<lparr> fragments := insert type_name (fragments r) \<rparr>"

definition register_enum :: "string \<Rightarrow> reference_registry \<Rightarrow> reference_registry" where
  "register_enum type_name r = r\<lparr> enums := insert type_name (enums r) \<rparr>"

definition register_input :: "string \<Rightarrow> reference_registry \<Rightarrow> reference_registry" where
  "register_input type_name r = r\<lparr> inputs := insert type_name (inputs r) \<rparr>"

definition register_scalar :: "string \<Rightarrow> reference_registry \<Rightarrow> reference_registry" where
  "register_scalar type_name r = r\<lparr> scalars := insert type_name (scalars r) \<rparr>"

lemmas register_defs =
  register_type_def register_fragment_def register_enum_def register_input_def
  register_scalar_def

section \<open>The selection walker\<close>

text \<open>
  \<^verbatim>\<open>recurse_find_references\<close> (referencer.py, lines 54 to 193). The registry is
  mutated in place by the source; here it is passed in and returned. An exception
  is \<open>Inl\<close>. The keyword argument \<^verbatim>\<open>is_optional\<close> is never read and is left out.

  The body of a \<^verbatim>\<open>for\<close> loop is one equation per class of the element. A loop
  that can execute \<^verbatim>\<open>return\<close> yields a \<open>flow\<close>: \<open>Returned\<close> leaves the
  whole function, \<open>Finished\<close> goes on after the loop.
\<close>

datatype 'a flow = Finished 'a | Returned 'a

function (sequential) recurse_find_references ::
    "selection \<Rightarrow> graphql_type \<Rightarrow> graphql_schema \<Rightarrow> reference_registry \<Rightarrow> error + reference_registry"
  and union_selections ::
    "selection list \<Rightarrow> graphql_schema \<Rightarrow> reference_registry \<Rightarrow> error + reference_registry"
  and union_inline_selections ::
    "selection list \<Rightarrow> string option \<Rightarrow> graphql_schema \<Rightarrow> reference_registry
      \<Rightarrow> error + reference_registry flow"
  and object_selections ::
    "selection list \<Rightarrow> (string \<rightharpoonup> graphql_type) \<Rightarrow> graphql_schema \<Rightarrow> reference_registry
      \<Rightarrow> error + reference_registry"
  and object_inline_selections ::
    "selection list \<Rightarrow> string option \<Rightarrow> graphql_schema \<Rightarrow> reference_registry
      \<Rightarrow> error + reference_registry"
where
  "recurse_find_references node (GraphQLUnionType u) client_schema registry =
     (case selections_of node of
        Inl e \<Rightarrow> Inl e
      | Inr ss \<Rightarrow> union_selections ss client_schema registry)"
| "recurse_find_references node (GraphQLInterfaceType i) client_schema registry =
     (case selections_of node of
        Inl e \<Rightarrow> Inl e
      | Inr ss \<Rightarrow> object_selections ss (type_fields client_schema i) client_schema registry)"
| "recurse_find_references node (GraphQLObjectType ob) client_schema registry =
     (case selections_of node of
        Inl e \<Rightarrow> Inl e
      | Inr ss \<Rightarrow> object_selections ss (type_fields client_schema ob) client_schema registry)"
| "recurse_find_references node (GraphQLScalarType n) client_schema registry =
     Inr (register_scalar n registry)"
| "recurse_find_references node (GraphQLEnumType n) client_schema registry =
     Inr (register_enum n registry)"
| "recurse_find_references node (GraphQLNonNull of_type) client_schema registry =
     recurse_find_references node of_type client_schema registry"
| "recurse_find_references node (GraphQLList of_type) client_schema registry =
     recurse_find_references node of_type client_schema registry"
| "recurse_find_references node (GraphQLInputObjectType n) client_schema registry =
     Inl (UnknownType (GraphQLInputObjectType n))"

| "union_selections [] client_schema registry = Inr registry"
| "union_selections (FragmentSpreadNode n # rest) client_schema registry =
     union_selections rest client_schema (register_fragment n registry)"
| "union_selections (InlineFragmentNode tc sels # rest) client_schema registry =
     (case union_inline_selections sels tc client_schema registry of
        Inl e \<Rightarrow> Inl e
      | Inr (Returned r) \<Rightarrow> Inr r
      | Inr (Finished r) \<Rightarrow> union_selections rest client_schema r)"
| "union_selections (FieldNode a n ss # rest) client_schema registry =
     union_selections rest client_schema registry"

| "union_inline_selections [] tc client_schema registry = Inr (Finished registry)"
| "union_inline_selections (FieldNode a n ss # rest) tc client_schema registry =
     (case tc of
        None \<Rightarrow> Inl AttributeError
      | Some tcn \<Rightarrow>
          if n = ''__typename'' then union_inline_selections rest tc client_schema registry
          else (case fields_of client_schema (get_type client_schema tcn) of
                  Inl e \<Rightarrow> Inl e
                | Inr fs \<Rightarrow>
                   (case subscript fs n of
                      Inl e \<Rightarrow> Inl e
                    | Inr field_type \<Rightarrow>
                       (case recurse_find_references (FieldNode a n ss) field_type
                               client_schema registry of
                          Inl e \<Rightarrow> Inl e
                        | Inr r \<Rightarrow> Inr (Returned r)))))"
| "union_inline_selections (FragmentSpreadNode n # rest) tc client_schema registry =
     union_inline_selections rest tc client_schema registry"
| "union_inline_selections (InlineFragmentNode tc' sels # rest) tc client_schema registry =
     union_inline_selections rest tc client_schema registry"

| "object_selections [] fs client_schema registry = Inr registry"
| "object_selections (FieldNode a n ss # rest) fs client_schema registry =
     (if n = ''__typename'' then object_selections rest fs client_schema registry
      else (case subscript fs n of
              Inl e \<Rightarrow> Inl e
            | Inr field_type \<Rightarrow>
               (case recurse_find_references (FieldNode a n ss) field_type
                       client_schema registry of
                  Inl e \<Rightarrow> Inl e
                | Inr r \<Rightarrow> object_selections rest fs client_schema r)))"
| "object_selections (FragmentSpreadNode n # rest) fs client_schema registry =
     object_selections rest fs client_schema (register_fragment n registry)"
| "object_selections (InlineFragmentNode tc sels # rest) fs client_schema registry =
     (case object_inline_selections sels tc client_schema registry of
        Inl e \<Rightarrow> Inl e
      | Inr r \<Rightarrow> object_selections rest fs client_schema r)"

| "object_inline_selections [] tc client_schema registry = Inr registry"
| "object_inline_selections (FieldNode a n ss # rest) tc client_schema registry =
     (case tc of
        None \<Rightarrow> Inl AttributeError
      | Some tcn \<Rightarrow>
          if n = ''__typename'' then object_inline_selections rest tc client_schema registry
          else (case fields_of client_schema (get_type client_schema tcn) of
                  Inl e \<Rightarrow> Inl e
                | Inr fs \<Rightarrow>
                   (case subscript fs n of
                      Inl e \<Rightarrow> Inl e
                    | Inr field_type \<Rightarrow>
                       (case recurse_find_references (FieldNode a n ss) field_type
                               client_schema registry of
                          Inl e \<Rightarrow> Inl e
                        | Inr r \<Rightarrow> object_inline_selections rest tc client_schema r))))"
| "object_inline_selections (FragmentSpreadNode n # rest) tc client_schema registry =
     object_inline_selections rest tc client_schema registry"
| "object_inline_selections (InlineFragmentNode tc' sels # rest) tc client_schema registry =
     object_inline_selections rest tc client_schema registry"
  by pat_completeness auto

text \<open>
  Every call either keeps the node and removes a wrapper from the type, or goes to a
  strictly smaller part of the node.
\<close>

termination
  by (relation "inv_image (less_than <*lex*> less_than)
        (\<lambda>x. case x of
            Inl (Inl (node, ty, cs, rg)) \<Rightarrow> (size node, size ty)
          | Inl (Inr (ss, cs, rg)) \<Rightarrow> (size_list size ss, 0)
          | Inr (Inl (ss, tc, cs, rg)) \<Rightarrow> (size_list size ss, 0)
          | Inr (Inr (Inl (ss, fs, cs, rg))) \<Rightarrow> (size_list size ss, 0)
          | Inr (Inr (Inr (ss, tc, cs, rg))) \<Rightarrow> (size_list size ss, 0))")
     (auto dest: selections_of_size)

text \<open>
  The interface branch (lines 87 to 125) and the object branch (lines 127 to 164) are
  the same text in the source, so both use \<open>object_selections\<close>. In the union branch
  (lines 61 to 85) the recursive call is \<^verbatim>\<open>return recurse_find_references(...)\<close>.
\<close>

section \<open>Variable types and the document walk\<close>

text \<open>
  \<^verbatim>\<open>recurse_type_annotation\<close> of referencer.py (lines 196 to 227). The keyword
  argument \<^verbatim>\<open>optional\<close> is never read. A type node is one of the three classes,
  so the final \<^verbatim>\<open>else\<close> of the source has no input.
\<close>

fun recurse_type_annotation ::
    "type_node \<Rightarrow> graphql_schema \<Rightarrow> reference_registry \<Rightarrow> error + reference_registry" where
  "recurse_type_annotation (NonNullTypeNode t) schema registry =
     recurse_type_annotation t schema registry"
| "recurse_type_annotation (ListTypeNode t) schema registry =
     recurse_type_annotation t schema registry"
| "recurse_type_annotation (NamedTypeNode n) schema registry =
     (case get_type schema n of
        Some (GraphQLScalarType z) \<Rightarrow> Inr (register_scalar z registry)
      | Some (GraphQLInputObjectType z) \<Rightarrow> Inr (register_input z registry)
      | Some (GraphQLEnumType z) \<Rightarrow> Inr (register_enum z registry)
      | _ \<Rightarrow> Inl (UnknownSubtype (NamedTypeNode n)))"

text \<open>
  \<^verbatim>\<open>create_reference_registry_from_documents\<close> (lines 230 to 286). The two
  dictionaries keep insertion order, and assigning to a key that is present replaces
  the value where it stands: \<open>AList.update\<close>.
\<close>

type_synonym definitions = "(string \<times> definition_node) list"

fun collect_definitions ::
    "definition_node list \<Rightarrow> definitions \<Rightarrow> definitions \<Rightarrow> error + (definitions \<times> definitions)" where
  "collect_definitions [] fragment_dict operation_dict = Inr (fragment_dict, operation_dict)"
| "collect_definitions (FragmentDefinitionNode n tc sels # rest) fragment_dict operation_dict =
     collect_definitions rest
       (AList.update n (FragmentDefinitionNode n tc sels) fragment_dict) operation_dict"
| "collect_definitions (OperationDefinitionNode d # rest) fragment_dict operation_dict =
     (case name d of
        None \<Rightarrow> Inl AttributeError
      | Some n \<Rightarrow>
          collect_definitions rest fragment_dict
            (AList.update n (OperationDefinitionNode d) operation_dict))"
| "collect_definitions (OtherDefinitionNode # rest) fragment_dict operation_dict =
     collect_definitions rest fragment_dict operation_dict"

text \<open>
  The loop over the selections of a definition (lines 249 to 262 and again 271 to 284),
  against the type \<open>ty\<close> that the schema returned, \<open>None\<close> when it has none.
\<close>

fun definition_selections ::
    "selection list \<Rightarrow> graphql_type option \<Rightarrow> graphql_schema \<Rightarrow> reference_registry
      \<Rightarrow> error + reference_registry" where
  "definition_selections [] ty schema registry = Inr registry"
| "definition_selections (FieldNode a n ss # rest) ty schema registry =
     (if n = ''__typename'' then definition_selections rest ty schema registry
      else (case fields_of schema ty of
              Inl e \<Rightarrow> Inl e
            | Inr fs \<Rightarrow>
               (case subscript fs n of
                  Inl e \<Rightarrow> Inl e
                | Inr this_type \<Rightarrow>
                   (case recurse_find_references (FieldNode a n ss) this_type schema registry of
                      Inl e \<Rightarrow> Inl e
                    | Inr r \<Rightarrow> definition_selections rest ty schema r))))"
| "definition_selections (FragmentSpreadNode n # rest) ty schema registry =
     definition_selections rest ty schema registry"
| "definition_selections (InlineFragmentNode tc sels # rest) ty schema registry =
     definition_selections rest ty schema registry"

fun variable_types ::
    "type_node list \<Rightarrow> graphql_schema \<Rightarrow> reference_registry \<Rightarrow> error + reference_registry" where
  "variable_types [] schema registry = Inr registry"
| "variable_types (t # rest) schema registry =
     (case recurse_type_annotation t schema registry of
        Inl e \<Rightarrow> Inl e
      | Inr r \<Rightarrow> variable_types rest schema r)"

definition get_root_type :: "graphql_schema \<Rightarrow> operation_type \<Rightarrow> graphql_type option" where
  "get_root_type schema ot = map_option GraphQLObjectType (root_types schema ot)"

fun walk_fragments ::
    "definition_node list \<Rightarrow> graphql_schema \<Rightarrow> reference_registry \<Rightarrow> error + reference_registry" where
  "walk_fragments [] schema registry = Inr registry"
| "walk_fragments (FragmentDefinitionNode n tc sels # rest) schema registry =
     (case definition_selections sels (get_type schema tc) schema registry of
        Inl e \<Rightarrow> Inl e
      | Inr r \<Rightarrow> walk_fragments rest schema r)"
| "walk_fragments (d # rest) schema registry = walk_fragments rest schema registry"

fun walk_operations ::
    "definition_node list \<Rightarrow> graphql_schema \<Rightarrow> reference_registry \<Rightarrow> error + reference_registry" where
  "walk_operations [] schema registry = Inr registry"
| "walk_operations (OperationDefinitionNode d # rest) schema registry =
     (case variable_types (variable_definitions d) schema registry of
        Inl e \<Rightarrow> Inl e
      | Inr r1 \<Rightarrow>
         (case selection_set d of
            None \<Rightarrow> Inl AttributeError
          | Some sels \<Rightarrow>
             (case definition_selections sels (get_root_type schema (operation d)) schema r1 of
                Inl e \<Rightarrow> Inl e
              | Inr r2 \<Rightarrow> walk_operations rest schema r2)))"
| "walk_operations (d # rest) schema registry = walk_operations rest schema registry"

text \<open>
  The dictionary \<^verbatim>\<open>fragments\<close> (here \<open>fragment_dict\<close>) holds fragment definitions
  only and \<^verbatim>\<open>operations\<close> (here \<open>operation_dict\<close>) operation definitions only, so the last equation of each walk has no input here.
\<close>

definition create_reference_registry_from_documents ::
    "graphql_schema \<Rightarrow> definition_node list \<Rightarrow> error + reference_registry" where
  "create_reference_registry_from_documents schema document =
     (case collect_definitions document [] [] of
        Inl e \<Rightarrow> Inl e
      | Inr (fragment_dict, operation_dict) \<Rightarrow>
         (case walk_fragments (map snd fragment_dict) schema ReferenceRegistry of
            Inl e \<Rightarrow> Inl e
          | Inr r \<Rightarrow> walk_operations (map snd operation_dict) schema r))"

section \<open>Return types of the generated operation functions\<close>

text \<open>
  The part of \<^verbatim>\<open>turms/plugins/funcs.py\<close> that decides the return type of an
  operation function. These are not among the sources and are parameters of the model:
  the styler methods of \<^verbatim>\<open>ClassRegistry\<close> (fields of \<open>class_registry\<close>), and
  \<^verbatim>\<open>recurse_outputtype_annotation\<close> and \<^verbatim>\<open>recurse_outputtype_label\<close> of
  \<^verbatim>\<open>turms.utils\<close>, passed as \<open>roa\<close> and \<open>rol\<close> with the arguments
  \<^verbatim>\<open>(type, registry, overwrite_final)\<close>.
\<close>

datatype py_ast = Name string | Subscript py_ast py_ast

record class_registry =
  style_query_class :: "string \<Rightarrow> string"
  style_mutation_class :: "string \<Rightarrow> string"
  style_subscription_class :: "string \<Rightarrow> string"
  style_fragment_class :: "string \<Rightarrow> string"
  generated_fragments :: "string set"

text \<open>
  Modelled from the spec: \<^verbatim>\<open>ClassRegistry.reference_fragment\<close>, whose module
  \<^verbatim>\<open>turms/registry.py\<close> is not among the sources. The spec (4.4) has the collapse
  resolver "return a direct reference to that fragment's already-registered generated
  type", and speaks of a forward reference to a fragment that is "defined later in
  output order"; its design notes ask for "symbolic references, not finalized output
  text". The callers in \<^verbatim>\<open>funcs.py\<close> pass the fragment name, an empty parent and
  the keyword \<^verbatim>\<open>allow_forward\<close>. So: the reference is the styled class name of the
  fragment. It is given when that class is among \<open>generated_fragments\<close>, the classes
  registered so far; for a class that is not, it is given as a forward reference when
  \<open>allow_forward\<close> holds, and refused with a RegistryError when it does not. The
  result stands for the \<^verbatim>\<open>.id\<close> of the node that the method returns.
\<close>

definition reference_fragment ::
    "class_registry \<Rightarrow> string \<Rightarrow> string \<Rightarrow> bool \<Rightarrow> error + string" where
  "reference_fragment registry typename parent allow_forward =
     (let fragment = style_fragment_class registry typename in
      if fragment \<in> generated_fragments registry \<or> allow_forward then Inr fragment
      else Inl (RegistryError fragment))"

text \<open>
  \<^verbatim>\<open>str.capitalize\<close> on the ASCII letters, which are the letters a GraphQL name can
  have: the first character in upper case, every other one in lower case.
\<close>

definition ascii_lowercase :: string where
  "ascii_lowercase = ''abcdefghijklmnopqrstuvwxyz''"

definition ascii_uppercase :: string where
  "ascii_uppercase = ''ABCDEFGHIJKLMNOPQRSTUVWXYZ''"

definition upper :: "char \<Rightarrow> char" where
  "upper c = (case map_of (zip ascii_lowercase ascii_uppercase) c of None \<Rightarrow> c | Some u \<Rightarrow> u)"

definition lower :: "char \<Rightarrow> char" where
  "lower c = (case map_of (zip ascii_uppercase ascii_lowercase) c of None \<Rightarrow> c | Some l \<Rightarrow> l)"

fun capitalize :: "string \<Rightarrow> string" where
  "capitalize [] = []"
| "capitalize (c # cs) = upper c # map lower cs"

definition get_operation_class_name ::
    "operation_definition_node \<Rightarrow> class_registry \<Rightarrow> error + string" where
  "get_operation_class_name opd registry =
     (case name opd of
        None \<Rightarrow> Inl AttributeError
      | Some n \<Rightarrow>
         (case operation opd of
            QUERY \<Rightarrow> Inr (style_query_class registry n)
          | MUTATION \<Rightarrow> Inr (style_mutation_class registry n)
          | SUBSCRIPTION \<Rightarrow> Inr (style_subscription_class registry n)))"

text \<open>
  Two functions of the GraphQL library. \<^verbatim>\<open>get_operation_root_type\<close> raises a
  GraphQLError when the schema has no root type for the operation; the result is the
  name of the root object type. \<^verbatim>\<open>get_field_def\<close> knows the three meta fields
  and otherwise looks the name up in the fields of the parent type.
\<close>

definition get_operation_root_type ::
    "graphql_schema \<Rightarrow> operation_definition_node \<Rightarrow> error + string" where
  "get_operation_root_type client_schema opd =
     (case root_types client_schema (operation opd) of
        None \<Rightarrow> Inl GraphQLError
      | Some root \<Rightarrow> Inr root)"

definition get_field_def :: "graphql_schema \<Rightarrow> string \<Rightarrow> string \<Rightarrow> graphql_type option" where
  "get_field_def client_schema parent_type n =
     (if n = ''__schema'' \<and> root_types client_schema QUERY = Some parent_type
        then Some (GraphQLNonNull (GraphQLObjectType ''__Schema''))
      else if n = ''__type'' \<and> root_types client_schema QUERY = Some parent_type
        then Some (GraphQLObjectType ''__Type'')
      else if n = ''__typename''
        then Some (GraphQLNonNull (GraphQLScalarType ''String''))
      else type_fields client_schema parent_type n)"

text \<open>
  \<^verbatim>\<open>len(selections) == 1 and isinstance(selections[0], FragmentSpreadNode)\<close>, with
  the name of that spread.
\<close>

fun sole_fragment_spread :: "selection list \<Rightarrow> string option" where
  "sole_fragment_spread [FragmentSpreadNode f] = Some f"
| "sole_fragment_spread sels = None"

text \<open>
  \<^verbatim>\<open>field_definition.type\<close>: an AttributeError when the lookup returned \<^verbatim>\<open>None\<close>.
\<close>

definition type_of_field_def :: "graphql_type option \<Rightarrow> error + graphql_type" where
  "type_of_field_def field_definition =
     (case field_definition of None \<Rightarrow> Inl AttributeError | Some t \<Rightarrow> Inr t)"

text \<open>\<^verbatim>\<open>get_return_type_annotation\<close> (funcs.py, lines 318 to 371).\<close>

definition get_return_type_annotation ::
    "(graphql_type \<Rightarrow> class_registry \<Rightarrow> string option \<Rightarrow> error + py_ast)
      \<Rightarrow> operation_definition_node \<Rightarrow> graphql_schema \<Rightarrow> class_registry \<Rightarrow> bool
      \<Rightarrow> error + py_ast" where
  "get_return_type_annotation roa opd client_schema registry collapse =
     (case get_operation_class_name opd registry of
        Inl e \<Rightarrow> Inl e
      | Inr o_name \<Rightarrow>
     (case get_operation_root_type client_schema opd of
        Inl e \<Rightarrow> Inl e
      | Inr root \<Rightarrow>
     if collapse then
       (case selection_set opd of
          None \<Rightarrow> Inl AttributeError
        | Some [] \<Rightarrow> Inl IndexError
        | Some (FragmentSpreadNode f # rest) \<Rightarrow> Inl AttributeError
        | Some (InlineFragmentNode tc sels # rest) \<Rightarrow> Inl AttributeError
        | Some (FieldNode alias n ss # rest) \<Rightarrow>
           (let field_definition = get_field_def client_schema root n in
            case ss of
              None \<Rightarrow>
               (case type_of_field_def field_definition of
                  Inl e \<Rightarrow> Inl e
                | Inr t \<Rightarrow> roa t registry None)
            | Some sels \<Rightarrow>
               (case sole_fragment_spread sels of
                  Some f \<Rightarrow>
                   (case type_of_field_def field_definition of
                      Inl e \<Rightarrow> Inl e
                    | Inr t \<Rightarrow>
                       (case reference_fragment registry f [] False of
                          Inl e \<Rightarrow> Inl e
                        | Inr ident \<Rightarrow> roa t registry (Some ident)))
                | None \<Rightarrow>
                   (let field_name = (case alias of None \<Rightarrow> n | Some al \<Rightarrow> al) in
                    case type_of_field_def field_definition of
                      Inl e \<Rightarrow> Inl e
                    | Inr t \<Rightarrow> roa t registry (Some (o_name @ capitalize field_name))))))
     else Inr (Name o_name)))"

text \<open>\<^verbatim>\<open>get_return_type_string\<close> (funcs.py, lines 374 to 419).\<close>

definition get_return_type_string ::
    "(graphql_type \<Rightarrow> class_registry \<Rightarrow> string option \<Rightarrow> error + string)
      \<Rightarrow> operation_definition_node \<Rightarrow> graphql_schema \<Rightarrow> class_registry \<Rightarrow> bool
      \<Rightarrow> error + string" where
  "get_return_type_string rol opd client_schema registry collapse =
     (case get_operation_class_name opd registry of
        Inl e \<Rightarrow> Inl e
      | Inr o_name \<Rightarrow>
     (case get_operation_root_type client_schema opd of
        Inl e \<Rightarrow> Inl e
      | Inr root \<Rightarrow>
     if collapse then
       (case selection_set opd of
          None \<Rightarrow> Inl AttributeError
        | Some [] \<Rightarrow> Inl IndexError
        | Some (FragmentSpreadNode f # rest) \<Rightarrow> Inl AttributeError
        | Some (InlineFragmentNode tc sels # rest) \<Rightarrow> Inl AttributeError
        | Some (FieldNode alias n ss # rest) \<Rightarrow>
           (let potential_return_type = get_field_def client_schema root n in
            case ss of
              None \<Rightarrow>
               (case type_of_field_def potential_return_type of
                  Inl e \<Rightarrow> Inl e
                | Inr t \<Rightarrow> rol t registry None)
            | Some sels \<Rightarrow>
               (case sole_fragment_spread sels of
                  Some f \<Rightarrow>
                   (case type_of_field_def potential_return_type of
                      Inl e \<Rightarrow> Inl e
                    | Inr t \<Rightarrow>
                       (case reference_fragment registry f [] False of
                          Inl e \<Rightarrow> Inl e
                        | Inr ident \<Rightarrow> rol t registry (Some ident)))
                | None \<Rightarrow>
                   (case type_of_field_def potential_return_type of
                      Inl e \<Rightarrow> Inl e
                    | Inr t \<Rightarrow> rol t registry (Some (o_name @ capitalize n))))))
     else Inr o_name))"

text \<open>
  In both functions the first selection is used as a field: a fragment spread has no
  \<^verbatim>\<open>selection_set\<close> attribute and an inline fragment no \<^verbatim>\<open>name\<close>, so either
  one ends in an AttributeError.
\<close>

text \<open>\<^verbatim>\<open>is_collapsable\<close> (funcs.py, lines 741 to 743).\<close>

definition is_collapsable :: "operation_definition_node \<Rightarrow> error + bool" where
  "is_collapsable opd =
     (case selection_set opd of
        None \<Rightarrow> Inl (AssertionError ''Operation needs to have at least a selection'')
      | Some sels \<Rightarrow> Inr (length sels = 1))"

section \<open>Notions used in the statements and proofs\<close>

text \<open>The registry that a loop hands on, whether it finished or returned.\<close>

fun flow_value :: "'a flow \<Rightarrow> 'a" where
  "flow_value (Finished x) = x"
| "flow_value (Returned x) = x"

text \<open>A result that is an error, or a registry whose operations set is \<open>ops\<close>.\<close>

definition keeps_operations :: "string set \<Rightarrow> error + reference_registry \<Rightarrow> bool" where
  "keeps_operations ops res =
     (case res of Inl e \<Rightarrow> True | Inr r \<Rightarrow> operations r = ops)"

definition keeps_operations_flow ::
    "string set \<Rightarrow> error + reference_registry flow \<Rightarrow> bool" where
  "keeps_operations_flow ops res =
     (case res of Inl e \<Rightarrow> True | Inr fl \<Rightarrow> operations (flow_value fl) = ops)"

text \<open>The name at the bottom of a type node, under all its wrappers.\<close>

fun named_type :: "type_node \<Rightarrow> string" where
  "named_type (NamedTypeNode n) = n"
| "named_type (ListTypeNode t) = named_type t"
| "named_type (NonNullTypeNode t) = named_type t"

text \<open>
  The definitions of a document under their names: the fragment definitions, and the
  operation definitions that have a name. An operation without a name is an anonymous
  one.
\<close>

fun fragment_entries :: "definition_node list \<Rightarrow> (string \<times> definition_node) list" where
  "fragment_entries [] = []"
| "fragment_entries (FragmentDefinitionNode n tc sels # ds) =
     (n, FragmentDefinitionNode n tc sels) # fragment_entries ds"
| "fragment_entries (d # ds) = fragment_entries ds"

fun operation_entries :: "definition_node list \<Rightarrow> (string \<times> definition_node) list" where
  "operation_entries [] = []"
| "operation_entries (OperationDefinitionNode d # ds) =
     (case name d of
        None \<Rightarrow> operation_entries ds
      | Some n \<Rightarrow> (n, OperationDefinitionNode d) # operation_entries ds)"
| "operation_entries (d # ds) = operation_entries ds"

fun anonymous_operation :: "definition_node \<Rightarrow> bool" where
  "anonymous_operation (OperationDefinitionNode d) = (name d = None)"
| "anonymous_operation d = False"

text \<open>
  Of the entries under the name \<open>k\<close> the last one: a later entry wins over an
  earlier one.
\<close>

fun last_definition :: "string \<Rightarrow> (string \<times> 'a) list \<Rightarrow> 'a option" where
  "last_definition k [] = None"
| "last_definition k ((k', v) # es) =
     (case last_definition k es of
        Some w \<Rightarrow> Some w
      | None \<Rightarrow> if k' = k then Some v else None)"

text \<open>The names of a list, each one once, where it occurs first.\<close>

fun first_occurrences :: "string list \<Rightarrow> string list" where
  "first_occurrences [] = []"
| "first_occurrences (k # ks) = k # filter (\<lambda>k'. k' \<noteq> k) (first_occurrences ks)"

text \<open>
  For every name the last definition under it, the names in the order in which they
  first occur.
\<close>

definition last_definitions :: "(string \<times> 'a) list \<Rightarrow> 'a list" where
  "last_definitions es =
     List.map_filter (\<lambda>k. last_definition k es) (first_occurrences (map fst es))"

text \<open>
  Removing the \<^verbatim>\<open>__typename\<close> fields from a selection and from all the selection
  sets below it. With \<open>everywhere\<close> every such field goes; without it those that
  stand directly in an inline fragment that has no type condition stay. In
  \<open>strip_typenames\<close> the flag \<open>here\<close> says whether the fields of this very list go too.
\<close>

fun is_typename :: "selection \<Rightarrow> bool" where
  "is_typename (FieldNode a n ss) = (n = ''__typename'')"
| "is_typename (FragmentSpreadNode f) = False"
| "is_typename (InlineFragmentNode tc ss) = False"

fun strip_typename :: "bool \<Rightarrow> selection \<Rightarrow> selection"
  and strip_typenames :: "bool \<Rightarrow> bool \<Rightarrow> selection list \<Rightarrow> selection list" where
  "strip_typename everywhere (FieldNode a n None) = FieldNode a n None"
| "strip_typename everywhere (FieldNode a n (Some ss)) =
     FieldNode a n (Some (strip_typenames everywhere True ss))"
| "strip_typename everywhere (FragmentSpreadNode f) = FragmentSpreadNode f"
| "strip_typename everywhere (InlineFragmentNode tc ss) =
     InlineFragmentNode tc
       (strip_typenames everywhere (case tc of None \<Rightarrow> everywhere | Some c \<Rightarrow> True) ss)"
| "strip_typenames everywhere here [] = []"
| "strip_typenames everywhere here (s # ss) =
     (if here \<and> is_typename s then strip_typenames everywhere here ss
      else strip_typename everywhere s # strip_typenames everywhere here ss)"

fun strip_definition :: "bool \<Rightarrow> definition_node \<Rightarrow> definition_node" where
  "strip_definition everywhere (FragmentDefinitionNode n tc sels) =
     FragmentDefinitionNode n tc (strip_typenames everywhere True sels)"
| "strip_definition everywhere (OperationDefinitionNode d) =
     OperationDefinitionNode
       (d\<lparr> selection_set := map_option (strip_typenames everywhere True) (selection_set d) \<rparr>)"
| "strip_definition everywhere OtherDefinitionNode = OtherDefinitionNode"

text \<open>
  Two results are alike when they are equal, or, if \<open>lenient\<close>, when the first is
  an AttributeError.
\<close>

definition alike :: "bool \<Rightarrow> error + 'a \<Rightarrow> error + 'a \<Rightarrow> bool" where
  "alike lenient a b = (if lenient \<and> a = Inl AttributeError then True else b = a)"

subsection \<open>A schema and documents for the examples\<close>

text \<open>
  \<^verbatim>\<open>union Pet = Dog | Cat\<close>, \<^verbatim>\<open>type Dog { name: String!  breed: Breed }\<close>,
  \<^verbatim>\<open>type Cat { name: String!  lives: Int }\<close> and
  \<^verbatim>\<open>type Query { pet: Pet  dog: Dog }\<close>.
\<close>

definition pet_schema :: graphql_schema where
  "pet_schema = \<lparr>
     type_map = [''Query'' \<mapsto> GraphQLObjectType ''Query'', ''Pet'' \<mapsto> GraphQLUnionType ''Pet'',
       ''Dog'' \<mapsto> GraphQLObjectType ''Dog'', ''Cat'' \<mapsto> GraphQLObjectType ''Cat'',
       ''Breed'' \<mapsto> GraphQLEnumType ''Breed'', ''String'' \<mapsto> GraphQLScalarType ''String'',
       ''Int'' \<mapsto> GraphQLScalarType ''Int'', ''PetFilter'' \<mapsto> GraphQLInputObjectType ''PetFilter''],
     type_fields = (\<lambda>t. Map.empty)
       (''Query'' := [''pet'' \<mapsto> GraphQLUnionType ''Pet'', ''dog'' \<mapsto> GraphQLObjectType ''Dog''],
        ''Dog'' := [''name'' \<mapsto> GraphQLNonNull (GraphQLScalarType ''String''),
                   ''breed'' \<mapsto> GraphQLEnumType ''Breed''],
        ''Cat'' := [''name'' \<mapsto> GraphQLNonNull (GraphQLScalarType ''String''),
                   ''lives'' \<mapsto> GraphQLScalarType ''Int'']),
     root_types = [QUERY \<mapsto> ''Query''] \<rparr>"

text \<open>\<^verbatim>\<open>pet { ... on Dog { name breed } ... on Cat { lives } }\<close>\<close>

definition pet_union_field :: selection where
  "pet_union_field = FieldNode None ''pet'' (Some
     [InlineFragmentNode (Some ''Dog'') [FieldNode None ''name'' None, FieldNode None ''breed'' None],
      InlineFragmentNode (Some ''Cat'') [FieldNode None ''lives'' None]])"

text \<open>A class registry whose styler leaves every name as it is.\<close>

definition plain_registry :: class_registry where
  "plain_registry = \<lparr> style_query_class = (\<lambda>n. n), style_mutation_class = (\<lambda>n. n),
     style_subscription_class = (\<lambda>n. n), style_fragment_class = (\<lambda>n. n),
     generated_fragments = {} \<rparr>"

text \<open>The same registry once the class of the fragment \<open>DogFragment\<close> is generated.\<close>

definition dog_fragment_registry :: class_registry where
  "dog_fragment_registry = plain_registry\<lparr> generated_fragments := {''DogFragment''} \<rparr>"

text \<open>
  Stand-ins, for the examples, for the two functions of \<^verbatim>\<open>turms.utils\<close> that are
  parameters of the model: they give back the final name that they are handed.
\<close>

definition final_name_annotation ::
    "graphql_type \<Rightarrow> class_registry \<Rightarrow> string option \<Rightarrow> error + py_ast" where
  "final_name_annotation t registry overwrite_final =
     (case overwrite_final of None \<Rightarrow> Inr (Name ''Any'') | Some s \<Rightarrow> Inr (Name s))"

definition final_name_label ::
    "graphql_type \<Rightarrow> class_registry \<Rightarrow> string option \<Rightarrow> error + string" where
  "final_name_label t registry overwrite_final =
     (case overwrite_final of None \<Rightarrow> Inr ''Any'' | Some s \<Rightarrow> Inr s)"

text \<open>\<^verbatim>\<open>query GetPet { <field> }\<close>\<close>

definition get_pet :: "selection \<Rightarrow> operation_definition_node" where
  "get_pet field = \<lparr> name = Some ''GetPet'', operation = QUERY, variable_definitions = [],
     selection_set = Some [field] \<rparr>"

lemmas example_defs =
  pet_schema_def pet_union_field_def plain_registry_def get_pet_def get_type_def subscript_def
  register_defs ReferenceRegistry_def

lemmas return_type_defs =
  get_return_type_annotation_def get_return_type_string_def get_operation_class_name_def
  get_operation_root_type_def get_field_def_def type_of_field_def_def reference_fragment_def
  upper_def lower_def ascii_lowercase_def ascii_uppercase_def

section \<open>Registry laws\<close>

text \<open>
  Claim C7. Each of the five registration methods is idempotent: registering a name
  twice gives the registry that registering it once gives, and from the empty registry
  the category then holds exactly that one name. The methods are total (they have no
  failure value), and registering two names gives the same registry in either order.
\<close>

theorem register_idempotent:
  "register_type n (register_type n r) = register_type n r
   \<and> register_fragment n (register_fragment n r) = register_fragment n r
   \<and> register_enum n (register_enum n r) = register_enum n r
   \<and> register_input n (register_input n r) = register_input n r
   \<and> register_scalar n (register_scalar n r) = register_scalar n r
   \<and> objects (register_type n (register_type n ReferenceRegistry)) = {n}
   \<and> fragments (register_fragment n (register_fragment n ReferenceRegistry)) = {n}
   \<and> enums (register_enum n (register_enum n ReferenceRegistry)) = {n}
   \<and> inputs (register_input n (register_input n ReferenceRegistry)) = {n}
   \<and> scalars (register_scalar n (register_scalar n ReferenceRegistry)) = {n}
   \<and> register_type n (register_type m r) = register_type m (register_type n r)
   \<and> register_fragment n (register_fragment m r) = register_fragment m (register_fragment n r)
   \<and> register_enum n (register_enum m r) = register_enum m (register_enum n r)
   \<and> register_input n (register_input m r) = register_input m (register_input n r)
   \<and> register_scalar n (register_scalar m r) = register_scalar m (register_scalar n r)"
  by (simp add: register_defs ReferenceRegistry_def insert_commute)

section \<open>The operations set\<close>

lemmas walker_induct =
  recurse_find_references_union_selections_union_inline_selections_object_selections_object_inline_selections.induct

lemma keeps_simps [simp]:
  "keeps_operations ops (Inl e)"
  "keeps_operations ops (Inr r) = (operations r = ops)"
  "keeps_operations_flow ops (Inl e)"
  "keeps_operations_flow ops (Inr fl) = (operations (flow_value fl) = ops)"
  by (simp_all add: keeps_operations_def keeps_operations_flow_def)

lemma register_operations [simp]:
  "operations (register_type n r) = operations r"
  "operations (register_fragment n r) = operations r"
  "operations (register_enum n r) = operations r"
  "operations (register_input n r) = operations r"
  "operations (register_scalar n r) = operations r"
  by (simp_all add: register_defs)

text \<open>The walker and its loops hand the operations set on as they found it.\<close>

lemma walker_operations:
  "keeps_operations (operations rg) (recurse_find_references node ty cs rg)"
  "keeps_operations (operations rg1) (union_selections ss1 cs1 rg1)"
  "keeps_operations_flow (operations rg2) (union_inline_selections ss2 tc2 cs2 rg2)"
  "keeps_operations (operations rg3) (object_selections ss3 fs3 cs3 rg3)"
  "keeps_operations (operations rg4) (object_inline_selections ss4 tc4 cs4 rg4)"
proof (induction node ty cs rg and ss1 cs1 rg1 and ss2 tc2 cs2 rg2 and ss3 fs3 cs3 rg3
    and ss4 tc4 cs4 rg4 rule: walker_induct)
qed (simp_all split: sum.split flow.split option.split,
     (metis keeps_simps(2,4) flow_value.simps)+)

lemma recurse_type_annotation_operations:
  "keeps_operations (operations rg) (recurse_type_annotation t schema rg)"
  by (induction t) (simp_all split: option.split graphql_type.split)

lemma variable_types_operations:
  "keeps_operations (operations rg) (variable_types ts schema rg)"
proof (induction ts arbitrary: rg)
  case Nil
  show ?case by simp
next
  case (Cons t ts)
  show ?case
  proof (cases "recurse_type_annotation t schema rg")
    case (Inl e)
    then show ?thesis by simp
  next
    case (Inr r1)
    with recurse_type_annotation_operations [of rg t schema]
    have "operations r1 = operations rg" by simp
    with Cons [of r1] Inr show ?thesis by simp
  qed
qed

lemma definition_selections_operations:
  "keeps_operations (operations rg) (definition_selections ss ty schema rg)"
proof (induction ss ty schema rg rule: definition_selections.induct)
  case (2 a n ss rest ty schema registry)
  show ?case
  proof (cases "n = ''__typename''")
    case True
    with 2(1) show ?thesis by simp
  next
    case False
    show ?thesis
    proof (cases "fields_of schema ty")
      case (Inl e)
      with False show ?thesis by simp
    next
      case fs: (Inr fs)
      show ?thesis
      proof (cases "subscript fs n")
        case (Inl e)
        with False fs show ?thesis by simp
      next
        case tt: (Inr this_type)
        show ?thesis
        proof (cases "recurse_find_references (FieldNode a n ss) this_type schema registry")
          case (Inl e)
          with False fs tt show ?thesis by simp
        next
          case (Inr r1)
          with walker_operations(1) [of registry "FieldNode a n ss" this_type schema]
          have "operations r1 = operations registry" by simp
          with 2(2) [OF False fs tt Inr] False fs tt Inr show ?thesis by simp
        qed
      qed
    qed
  qed
qed simp_all

lemma walk_fragments_operations:
  "keeps_operations (operations rg) (walk_fragments ds schema rg)"
proof (induction ds schema rg rule: walk_fragments.induct)
  case (2 n tc sels rest schema registry)
  show ?case
  proof (cases "definition_selections sels (get_type schema tc) schema registry")
    case (Inl e)
    then show ?thesis by simp
  next
    case (Inr r1)
    with definition_selections_operations [of registry sels "get_type schema tc" schema]
    have "operations r1 = operations registry" by simp
    with 2 [OF Inr] Inr show ?thesis by simp
  qed
qed simp_all

lemma walk_operations_operations:
  "keeps_operations (operations rg) (walk_operations ds schema rg)"
proof (induction ds schema rg rule: walk_operations.induct)
  case (2 d rest schema registry)
  show ?case
  proof (cases "variable_types (variable_definitions d) schema registry")
    case (Inl e)
    then show ?thesis by simp
  next
    case r1: (Inr r1)
    with variable_types_operations [of registry "variable_definitions d" schema]
    have o1: "operations r1 = operations registry" by simp
    show ?thesis
    proof (cases "selection_set d")
      case None
      with r1 show ?thesis by simp
    next
      case (Some sels)
      show ?thesis
      proof (cases "definition_selections sels (get_root_type schema (operation d)) schema r1")
        case (Inl e)
        with r1 Some show ?thesis by simp
      next
        case (Inr r2)
        with definition_selections_operations
          [of r1 sels "get_root_type schema (operation d)" schema]
        have "operations r2 = operations r1" by simp
        with 2 [OF r1 Some Inr] r1 Some Inr o1 show ?thesis by simp
      qed
    qed
  qed
qed simp_all

text \<open>
  Claim C9. The registry that \<^verbatim>\<open>create_reference_registry_from_documents\<close> returns
  has an empty operations set, for every schema and document; and none of the five
  registration methods changes the operations set of a registry.
\<close>

theorem operations_stays_empty:
  assumes "create_reference_registry_from_documents schema document = Inr r"
  shows "operations r = {}
    \<and> operations (register_type n q) = operations q
    \<and> operations (register_fragment n q) = operations q
    \<and> operations (register_enum n q) = operations q
    \<and> operations (register_input n q) = operations q
    \<and> operations (register_scalar n q) = operations q"
proof -
  from assms obtain fd od r1 where
    "collect_definitions document [] [] = Inr (fd, od)" and
    f: "walk_fragments (map snd fd) schema ReferenceRegistry = Inr r1" and
    w: "walk_operations (map snd od) schema r1 = Inr r"
    by (auto simp: create_reference_registry_from_documents_def split: sum.splits prod.splits)
  from f walk_fragments_operations [of ReferenceRegistry "map snd fd" schema]
  have "operations r1 = {}" by (simp add: ReferenceRegistry_def)
  with w walk_operations_operations [of r1 "map snd od" schema]
  have "operations r = {}" by simp
  then show ?thesis by simp
qed


text \<open>
  The example document \<^verbatim>\<open>query GetPet { dog { name breed } }\<close> gives a registry with
  one scalar and one enum, and nothing in the operations set.
\<close>

theorem operations_stays_empty_witness:
  "create_reference_registry_from_documents pet_schema
     [OperationDefinitionNode (get_pet (FieldNode None ''dog''
        (Some [FieldNode None ''name'' None, FieldNode None ''breed'' None])))]
     = Inr (ReferenceRegistry\<lparr> scalars := {''String''}, enums := {''Breed''} \<rparr>)
   \<and> operations (ReferenceRegistry\<lparr> scalars := {''String''}, enums := {''Breed''} \<rparr>) = {}"
proof -
  have run: "create_reference_registry_from_documents pet_schema
     [OperationDefinitionNode (get_pet (FieldNode None ''dog''
        (Some [FieldNode None ''name'' None, FieldNode None ''breed'' None])))]
     = Inr (ReferenceRegistry\<lparr> scalars := {''String''}, enums := {''Breed''} \<rparr>)"
    by (simp add: create_reference_registry_from_documents_def get_root_type_def example_defs)
  from operations_stays_empty [OF run] run show ?thesis by simp
qed

section \<open>Inline fragments under a union\<close>

text \<open>
  Claim C1. For the selection \<^verbatim>\<open>pet { ... on Dog { name breed } ... on Cat { lives } }\<close>
  on the union \<open>Pet\<close> the claim has the registry hold what both inline fragments
  reach: the scalars \<open>String\<close> and \<open>Int\<close> and the enum \<open>Breed\<close>. The walker
  returns from inside the loops at the first field that is not \<^verbatim>\<open>__typename\<close>, so
  only \<open>String\<close> is registered.
\<close>

theorem union_walk_returns_at_first_field:
  "recurse_find_references pet_union_field (GraphQLUnionType ''Pet'') pet_schema ReferenceRegistry
     = Inr (ReferenceRegistry\<lparr> scalars := {''String''} \<rparr>)"
  by (simp add: example_defs)

text \<open>
  The object branch, which has the same loops without the \<^verbatim>\<open>return\<close>, visits every
  field of both inline fragments of the same selection.
\<close>

lemma object_walk_visits_both_fragments:
  "recurse_find_references pet_union_field (GraphQLObjectType ''Query'') pet_schema ReferenceRegistry
     = Inr (ReferenceRegistry\<lparr> scalars := {''String'', ''Int''}, enums := {''Breed''} \<rparr>)"
  by (simp add: example_defs insert_commute)

section \<open>Collapsable operations\<close>

text \<open>
  Claim C4. \<^verbatim>\<open>is_collapsable\<close> fails exactly when the selection set of the
  operation is absent, and then with the AssertionError of its \<^verbatim>\<open>assert\<close>, whose
  message is that the operation needs at least a selection: an operation that selects
  nothing is one without a selection set. Otherwise the result is whether the selection
  set has exactly one selection: true for one, false for two or more.
\<close>

theorem is_collapsable_spec:
  "((\<exists>e. is_collapsable opd = Inl e) = (selection_set opd = None))
   \<and> (selection_set opd = None \<longrightarrow>
        is_collapsable opd = Inl (AssertionError ''Operation needs to have at least a selection''))
   \<and> (\<forall>sels. selection_set opd = Some sels \<longrightarrow> is_collapsable opd = Inr (length sels = 1))"
  by (auto simp: is_collapsable_def split: option.splits)

text \<open>
  \<^verbatim>\<open>query GetPet { pet { ... } }\<close> has one selection; the same operation without
  its selection set is refused.
\<close>

theorem is_collapsable_spec_witness:
  "selection_set (get_pet pet_union_field) = Some [pet_union_field]
   \<and> is_collapsable (get_pet pet_union_field) = Inr True
   \<and> selection_set ((get_pet pet_union_field)\<lparr> selection_set := None \<rparr>) = None
   \<and> is_collapsable ((get_pet pet_union_field)\<lparr> selection_set := None \<rparr>)
       = Inl (AssertionError ''Operation needs to have at least a selection'')"
proof -
  have one: "selection_set (get_pet pet_union_field) = Some [pet_union_field]"
    by (simp add: get_pet_def)
  have none: "selection_set ((get_pet pet_union_field)\<lparr> selection_set := None \<rparr>) = None"
    by simp
  from is_collapsable_spec [of "get_pet pet_union_field"] one
  have "is_collapsable (get_pet pet_union_field) = Inr True" by simp
  moreover from is_collapsable_spec [of "(get_pet pet_union_field)\<lparr> selection_set := None \<rparr>"] none
  have "is_collapsable ((get_pet pet_union_field)\<lparr> selection_set := None \<rparr>)
       = Inl (AssertionError ''Operation needs to have at least a selection'')" by blast
  ultimately show ?thesis using one none by simp
qed

section \<open>Variable types\<close>

text \<open>
  Claim C6. \<^verbatim>\<open>recurse_type_annotation\<close> removes one NonNull or List wrapper at each
  call. At the named type under the wrappers it registers the type that the schema has
  under that name as a scalar, an input or an enum, after its kind. For any other kind,
  and for a name the schema does not have, it raises the error that holds the named
  type node. The error is not caught: the loop over the variables of an operation and
  \<^verbatim>\<open>create_reference_registry_from_documents\<close> end with the same error.
\<close>

theorem recurse_type_annotation_spec:
  "recurse_type_annotation (NonNullTypeNode t) schema registry
      = recurse_type_annotation t schema registry
   \<and> recurse_type_annotation (ListTypeNode t) schema registry
      = recurse_type_annotation t schema registry
   \<and> recurse_type_annotation t schema registry =
     (case get_type schema (named_type t) of
        Some (GraphQLScalarType z) \<Rightarrow> Inr (register_scalar z registry)
      | Some (GraphQLInputObjectType z) \<Rightarrow> Inr (register_input z registry)
      | Some (GraphQLEnumType z) \<Rightarrow> Inr (register_enum z registry)
      | _ \<Rightarrow> Inl (UnknownSubtype (NamedTypeNode (named_type t))))
   \<and> (recurse_type_annotation t schema registry = Inl e \<longrightarrow>
        variable_types (t # rest) schema registry = Inl e)
   \<and> (recurse_type_annotation t schema ReferenceRegistry = Inl e \<longrightarrow>
        name d = Some n \<longrightarrow> variable_definitions d = t # rest \<longrightarrow>
        create_reference_registry_from_documents schema [OperationDefinitionNode d] = Inl e)"
proof -
  have "recurse_type_annotation t schema registry =
     (case get_type schema (named_type t) of
        Some (GraphQLScalarType z) \<Rightarrow> Inr (register_scalar z registry)
      | Some (GraphQLInputObjectType z) \<Rightarrow> Inr (register_input z registry)
      | Some (GraphQLEnumType z) \<Rightarrow> Inr (register_enum z registry)
      | _ \<Rightarrow> Inl (UnknownSubtype (NamedTypeNode (named_type t))))"
    by (induction t) (simp_all split: option.split graphql_type.split)
  moreover have "recurse_type_annotation t schema ReferenceRegistry = Inl e \<longrightarrow>
        name d = Some n \<longrightarrow> variable_definitions d = t # rest \<longrightarrow>
        create_reference_registry_from_documents schema [OperationDefinitionNode d] = Inl e"
    by (simp add: create_reference_registry_from_documents_def)
  ultimately show ?thesis by simp
qed

text \<open>
  A variable of type \<^verbatim>\<open>[Pet]!\<close>, where \<open>Pet\<close> is a union, stops the run.
\<close>

theorem recurse_type_annotation_spec_witness:
  "recurse_type_annotation (NonNullTypeNode (ListTypeNode (NamedTypeNode ''Pet''))) pet_schema
      ReferenceRegistry = Inl (UnknownSubtype (NamedTypeNode ''Pet''))
   \<and> create_reference_registry_from_documents pet_schema
       [OperationDefinitionNode ((get_pet pet_union_field)
          \<lparr> variable_definitions := [NonNullTypeNode (ListTypeNode (NamedTypeNode ''Pet''))] \<rparr>)]
      = Inl (UnknownSubtype (NamedTypeNode ''Pet''))
   \<and> recurse_type_annotation (ListTypeNode (NamedTypeNode ''PetFilter'')) pet_schema
      ReferenceRegistry = Inr (register_input ''PetFilter'' ReferenceRegistry)"
proof -
  let ?t = "NonNullTypeNode (ListTypeNode (NamedTypeNode ''Pet''))"
  let ?d = "(get_pet pet_union_field)\<lparr> variable_definitions := [?t] \<rparr>"
  have ty: "get_type pet_schema ''Pet'' = Some (GraphQLUnionType ''Pet'')"
    by (simp add: pet_schema_def get_type_def)
  have fail: "recurse_type_annotation ?t pet_schema ReferenceRegistry
      = Inl (UnknownSubtype (NamedTypeNode ''Pet''))"
    using recurse_type_annotation_spec
      [of "ListTypeNode (NamedTypeNode ''Pet'')" pet_schema ReferenceRegistry] ty
    by simp
  have d: "name ?d = Some ''GetPet''" "variable_definitions ?d = ?t # []"
    by (simp_all add: get_pet_def)
  from recurse_type_annotation_spec
      [of ?t pet_schema ReferenceRegistry "UnknownSubtype (NamedTypeNode ''Pet'')" "[]" ?d "''GetPet''"]
    fail d
  have run: "create_reference_registry_from_documents pet_schema [OperationDefinitionNode ?d]
      = Inl (UnknownSubtype (NamedTypeNode ''Pet''))"
    by blast
  have ok: "recurse_type_annotation (ListTypeNode (NamedTypeNode ''PetFilter'')) pet_schema
      ReferenceRegistry = Inr (register_input ''PetFilter'' ReferenceRegistry)"
    using recurse_type_annotation_spec
      [of "NamedTypeNode ''PetFilter''" pet_schema ReferenceRegistry]
    by (simp add: pet_schema_def get_type_def)
  from fail run ok show ?thesis by simp
qed


section \<open>Return types\<close>

lemma class_name_defined:
  "name opd = Some nm \<Longrightarrow> \<exists>o_name. get_operation_class_name opd registry = Inr o_name"
  by (simp add: get_operation_class_name_def split: operation_type.split)

text \<open>
  With collapse, a sole top-level field with sub-selections that are not one lone
  fragment spread gives \<^verbatim>\<open>get_return_type_annotation\<close> the styled operation name
  followed by the capitalised alias, or by the capitalised field name when the field
  has no alias.
\<close>

lemma return_type_annotation_synthesized:
  assumes "name opd = Some nm"
    and "root_types client_schema (operation opd) = Some root"
    and "selection_set opd = Some [FieldNode alias n (Some sels)]"
    and "sole_fragment_spread sels = None"
    and "get_field_def client_schema root n = Some t"
    and "get_operation_class_name opd registry = Inr o_name"
  shows "get_return_type_annotation roa opd client_schema registry True
    = roa t registry (Some (o_name @ capitalize (case alias of None \<Rightarrow> n | Some al \<Rightarrow> al)))"
  using assms
  by (simp add: get_return_type_annotation_def get_operation_root_type_def type_of_field_def_def)

text \<open>\<^verbatim>\<open>get_return_type_string\<close> never reads the alias.\<close>

lemma return_type_string_synthesized:
  assumes "name opd = Some nm"
    and "root_types client_schema (operation opd) = Some root"
    and "selection_set opd = Some [FieldNode alias n (Some sels)]"
    and "sole_fragment_spread sels = None"
    and "get_field_def client_schema root n = Some t"
    and "get_operation_class_name opd registry = Inr o_name"
  shows "get_return_type_string rol opd client_schema registry True
    = rol t registry (Some (o_name @ capitalize n))"
  using assms
  by (simp add: get_return_type_string_def get_operation_root_type_def type_of_field_def_def)

text \<open>
  Claim C2, as stated, has the resolution succeed when the fragment is defined later
  in output order, that is when its class is not registered yet. Both functions call
  \<^verbatim>\<open>reference_fragment\<close> with \<^verbatim>\<open>allow_forward=False\<close>: for
  \<^verbatim>\<open>query GetPet { dog { ...DogFragment } }\<close> and a class registry without the class
  of \<open>DogFragment\<close> they end in a RegistryError (\<open>reference_fragment\<close> is modelled
  from the spec).
\<close>

theorem forward_fragment_reference_counterexample:
  "get_return_type_annotation final_name_annotation
       (get_pet (FieldNode None ''dog'' (Some [FragmentSpreadNode ''DogFragment''])))
       pet_schema plain_registry True
      = Inl (RegistryError ''DogFragment'')
   \<and> get_return_type_string final_name_label
       (get_pet (FieldNode None ''dog'' (Some [FragmentSpreadNode ''DogFragment''])))
       pet_schema plain_registry True
      = Inl (RegistryError ''DogFragment'')"
  by (simp add: return_type_defs get_pet_def pet_schema_def plain_registry_def)

text \<open>
  Claim C2, amended. With collapse enabled, for an operation whose sole top-level field
  has one child that is a fragment spread, both return-type functions pass on, as the
  final type, the reference to the class of the fragment, and not a name made from the
  operation, when the class of the fragment is registered. When it is not, both end in
  the RegistryError of the class registry: no forward reference is made.
\<close>

theorem collapse_to_fragment_reference:
  assumes "name opd = Some nm"
    and "root_types client_schema (operation opd) = Some root"
    and "selection_set opd = Some [FieldNode alias n (Some [FragmentSpreadNode f])]"
    and "get_field_def client_schema root n = Some t"
  shows "(style_fragment_class registry f \<in> generated_fragments registry \<longrightarrow>
            get_return_type_annotation roa opd client_schema registry True
              = roa t registry (Some (style_fragment_class registry f))
          \<and> get_return_type_string rol opd client_schema registry True
              = rol t registry (Some (style_fragment_class registry f)))
    \<and> (style_fragment_class registry f \<notin> generated_fragments registry \<longrightarrow>
            get_return_type_annotation roa opd client_schema registry True
              = Inl (RegistryError (style_fragment_class registry f))
          \<and> get_return_type_string rol opd client_schema registry True
              = Inl (RegistryError (style_fragment_class registry f)))"
proof -
  from assms(1) obtain o_name where "get_operation_class_name opd registry = Inr o_name"
    by (auto dest: class_name_defined)
  with assms show ?thesis
    by (simp add: get_return_type_annotation_def get_return_type_string_def
        get_operation_root_type_def type_of_field_def_def reference_fragment_def)
qed

text \<open>
  \<^verbatim>\<open>query GetPet { dog { ...DogFragment } }\<close>, once the class of \<open>DogFragment\<close>
  is registered.
\<close>

theorem collapse_to_fragment_reference_witness:
  "style_fragment_class dog_fragment_registry ''DogFragment''
      \<in> generated_fragments dog_fragment_registry
   \<and> get_return_type_annotation final_name_annotation
       (get_pet (FieldNode None ''dog'' (Some [FragmentSpreadNode ''DogFragment''])))
       pet_schema dog_fragment_registry True
      = Inr (Name ''DogFragment'')
   \<and> get_return_type_string final_name_label
       (get_pet (FieldNode None ''dog'' (Some [FragmentSpreadNode ''DogFragment''])))
       pet_schema dog_fragment_registry True
      = Inr ''DogFragment''"
proof -
  let ?opd = "get_pet (FieldNode None ''dog'' (Some [FragmentSpreadNode ''DogFragment'']))"
  have h: "name ?opd = Some ''GetPet''"
    "root_types pet_schema (operation ?opd) = Some ''Query''"
    "selection_set ?opd = Some [FieldNode None ''dog'' (Some [FragmentSpreadNode ''DogFragment''])]"
    "get_field_def pet_schema ''Query'' ''dog'' = Some (GraphQLObjectType ''Dog'')"
    by (simp_all add: get_pet_def pet_schema_def get_field_def_def)
  have g: "style_fragment_class dog_fragment_registry ''DogFragment''
      \<in> generated_fragments dog_fragment_registry"
    by (simp add: dog_fragment_registry_def plain_registry_def)
  from collapse_to_fragment_reference
    [OF h, of dog_fragment_registry final_name_annotation final_name_label] g
  show ?thesis
    by (simp add: dog_fragment_registry_def plain_registry_def
        final_name_annotation_def final_name_label_def)
qed

text \<open>
  Claim C3. The two return-type functions are to decide on the same type name. For
  \<^verbatim>\<open>query GetPet { myPet: dog { name } }\<close> with collapse the annotation is built
  from the alias and the display string from the field name.
\<close>

theorem return_type_functions_diverge_on_alias:
  "get_return_type_annotation roa
      (get_pet (FieldNode (Some ''myPet'') ''dog'' (Some [FieldNode None ''name'' None])))
      pet_schema plain_registry True
     = roa (GraphQLObjectType ''Dog'') plain_registry (Some ''GetPetMypet'')
   \<and> get_return_type_string rol
      (get_pet (FieldNode (Some ''myPet'') ''dog'' (Some [FieldNode None ''name'' None])))
      pet_schema plain_registry True
     = rol (GraphQLObjectType ''Dog'') plain_registry (Some ''GetPetDog'')"
  by (simp add: return_type_defs get_pet_def pet_schema_def plain_registry_def)

text \<open>
  Claim C5. For \<^verbatim>\<open>query GetPet { best: dog { breed } }\<close> with collapse the claim has
  the synthesized name end in the capitalised alias, \<open>GetPetBest\<close>. The display
  string of \<^verbatim>\<open>get_return_type_string\<close> is built from \<open>GetPetDog\<close>.
\<close>

theorem return_type_string_ignores_alias:
  "get_return_type_string rol
      (get_pet (FieldNode (Some ''best'') ''dog'' (Some [FieldNode None ''breed'' None])))
      pet_schema plain_registry True
     = rol (GraphQLObjectType ''Dog'') plain_registry (Some ''GetPetDog'')"
  by (simp add: return_type_defs get_pet_def pet_schema_def plain_registry_def)

text \<open>
  The example of the spec, \<^verbatim>\<open>query GetPet { dog { breed } }\<close> without an alias: both
  functions use \<open>GetPetDog\<close>; with the alias the annotation uses \<open>GetPetBest\<close>.
\<close>

lemma return_type_example:
  "get_return_type_annotation roa
      (get_pet (FieldNode None ''dog'' (Some [FieldNode None ''breed'' None])))
      pet_schema plain_registry True
     = roa (GraphQLObjectType ''Dog'') plain_registry (Some ''GetPetDog'')
   \<and> get_return_type_string rol
      (get_pet (FieldNode None ''dog'' (Some [FieldNode None ''breed'' None])))
      pet_schema plain_registry True
     = rol (GraphQLObjectType ''Dog'') plain_registry (Some ''GetPetDog'')
   \<and> get_return_type_annotation roa
      (get_pet (FieldNode (Some ''best'') ''dog'' (Some [FieldNode None ''breed'' None])))
      pet_schema plain_registry True
     = roa (GraphQLObjectType ''Dog'') plain_registry (Some ''GetPetBest'')"
  by (simp add: return_type_defs get_pet_def pet_schema_def plain_registry_def)


section \<open>Definitions of the same name\<close>

text \<open>
  Two association lists that hold the same keys in the same order and differ at most
  in the value of \<open>k\<close>: the second is the first with \<open>k\<close>, which it has, updated.
\<close>

lemma update_commute_present:
  "k \<in> fst ` set al \<Longrightarrow> m \<noteq> k \<Longrightarrow>
     AList.update m x (AList.update k v al) = AList.update k v (AList.update m x al)"
  by (induction al) auto

lemma update_keeps_key: "k \<in> fst ` set al \<Longrightarrow> k \<in> fst ` set (AList.update m x al)"
  by (simp add: AList.dom_update)

lemma collect_definitions_append:
  "collect_definitions (xs @ ys) fd od =
     (case collect_definitions xs fd od of
        Inl e \<Rightarrow> Inl e
      | Inr (fd', od') \<Rightarrow> collect_definitions ys fd' od')"
  by (induction xs fd od rule: collect_definitions.induct) (simp_all split: option.split)

lemma collect_operations_shadowed:
  assumes "name d' = Some k" and "k \<in> fst ` set od"
  shows "collect_definitions (ds @ OperationDefinitionNode d' # rest) fd (AList.update k v od)
       = collect_definitions (ds @ OperationDefinitionNode d' # rest) fd od"
  using assms(2)
proof (induction ds fd od rule: collect_definitions.induct)
  case (1 fd od)
  show ?case using assms(1) by simp
next
  case (2 n tc sels ds fd od)
  then show ?case by simp
next
  case (3 d ds fd od)
  show ?case
  proof (cases "name d")
    case None
    then show ?thesis by simp
  next
    case (Some m)
    show ?thesis
    proof (cases "m = k")
      case True
      with Some show ?thesis by simp
    next
      case False
      from 3(2) have "k \<in> fst ` set (AList.update m (OperationDefinitionNode d) od)"
        by (rule update_keeps_key)
      from 3(1) [OF Some this] Some False 3(2) show ?thesis
        by (simp add: update_commute_present)
    qed
  qed
next
  case (4 ds fd od)
  then show ?case by simp
qed

lemma collect_fragments_shadowed:
  assumes "k \<in> fst ` set fd"
  shows "collect_definitions (ds @ FragmentDefinitionNode k tc' sels' # rest) (AList.update k v fd) od
       = collect_definitions (ds @ FragmentDefinitionNode k tc' sels' # rest) fd od"
  using assms
proof (induction ds fd od rule: collect_definitions.induct)
  case (1 fd od)
  show ?case by simp
next
  case (2 n tc sels ds fd od)
  show ?case
  proof (cases "n = k")
    case True
    then show ?thesis by simp
  next
    case False
    from 2(2) have "k \<in> fst ` set (AList.update n (FragmentDefinitionNode n tc sels) fd)"
      by (rule update_keeps_key)
    from 2(1) [OF this] False 2(2) show ?thesis
      by (simp add: update_commute_present)
  qed
next
  case (3 d ds fd od)
  then show ?case by (simp split: option.split)
next
  case (4 ds fd od)
  then show ?case by simp
qed

lemma collect_earlier_operation:
  assumes "name d = Some k" and "name e = Some k" and "name d' = Some k"
  shows "collect_definitions
           (ds1 @ OperationDefinitionNode d # ds2 @ OperationDefinitionNode d' # ds3) fd od
       = collect_definitions
           (ds1 @ OperationDefinitionNode e # ds2 @ OperationDefinitionNode d' # ds3) fd od"
proof (cases "collect_definitions ds1 fd od")
  case (Inl err)
  then show ?thesis by (simp add: collect_definitions_append)
next
  case (Inr p)
  obtain fd1 od1 where p: "p = (fd1, od1)" by (cases p)
  let ?tail = "ds2 @ OperationDefinitionNode d' # ds3"
  have "k \<in> fst ` set (AList.update k (OperationDefinitionNode d) od1)"
    by (simp add: AList.dom_update)
  from collect_operations_shadowed [OF assms(3) this, of ds2 ds3 fd1 "OperationDefinitionNode e"]
  have "collect_definitions ?tail fd1 (AList.update k (OperationDefinitionNode e) od1)
      = collect_definitions ?tail fd1 (AList.update k (OperationDefinitionNode d) od1)"
    by simp
  with Inr p assms(1,2) show ?thesis by (simp add: collect_definitions_append)
qed

lemma collect_earlier_fragment:
  "collect_definitions
     (ds1 @ FragmentDefinitionNode k tc sels # ds2 @ FragmentDefinitionNode k tc' sels' # ds3) fd od
   = collect_definitions
     (ds1 @ FragmentDefinitionNode k tc2 sels2 # ds2 @ FragmentDefinitionNode k tc' sels' # ds3) fd od"
proof (cases "collect_definitions ds1 fd od")
  case (Inl err)
  then show ?thesis by (simp add: collect_definitions_append)
next
  case (Inr p)
  obtain fd1 od1 where p: "p = (fd1, od1)" by (cases p)
  let ?tail = "ds2 @ FragmentDefinitionNode k tc' sels' # ds3"
  have "k \<in> fst ` set (AList.update k (FragmentDefinitionNode k tc sels) fd1)"
    by (simp add: AList.dom_update)
  from collect_fragments_shadowed [OF this, of ds2 tc' sels' ds3 "FragmentDefinitionNode k tc2 sels2" od1]
  have "collect_definitions ?tail (AList.update k (FragmentDefinitionNode k tc2 sels2) fd1) od1
      = collect_definitions ?tail (AList.update k (FragmentDefinitionNode k tc sels) fd1) od1"
    by simp
  with Inr p show ?thesis by (simp add: collect_definitions_append)
qed

text \<open>The two dictionaries after the first loop.\<close>

lemma collect_definitions_anonymous:
  "list_ex anonymous_operation ds \<Longrightarrow> collect_definitions ds fd od = Inl AttributeError"
  by (induction ds fd od rule: collect_definitions.induct) (auto split: option.split)

lemma collect_definitions_entries:
  "\<not> list_ex anonymous_operation ds \<Longrightarrow>
     collect_definitions ds fd od
       = Inr (fold (\<lambda>(k, v). AList.update k v) (fragment_entries ds) fd,
              fold (\<lambda>(k, v). AList.update k v) (operation_entries ds) od)"
  by (induction ds fd od rule: collect_definitions.induct) (auto split: option.split)

lemma last_definition_map_of: "last_definition k es = map_of (rev es) k"
proof (induction es)
  case Nil
  show ?case by simp
next
  case (Cons e es)
  obtain k' v where "e = (k', v)" by (cases e)
  with Cons show ?case by (cases "map_of (rev es) k") (simp_all add: map_add_def)
qed

lemma map_of_fold_update:
  "map_of (fold (\<lambda>(k, v). AList.update k v) es al) = map_of al ++ map_of (rev es)"
proof (induction es arbitrary: al)
  case Nil
  show ?case by simp
next
  case (Cons e es)
  obtain k v where e: "e = (k, v)" by (cases e)
  have "map_of (fold (\<lambda>(k, v). AList.update k v) (e # es) al)
      = map_of (fold (\<lambda>(k, v). AList.update k v) es (AList.update k v al))"
    using e by simp
  also have "\<dots> = map_of (AList.update k v al) ++ map_of (rev es)"
    by (rule Cons)
  also have "\<dots> = map_of al ++ map_of (rev (e # es))"
  proof (rule ext)
    fix x
    show "(map_of (AList.update k v al) ++ map_of (rev es)) x
        = (map_of al ++ map_of (rev (e # es))) x"
      using e by (cases "map_of (rev es) x") (simp_all add: map_add_def update_conv)
  qed
  finally show ?case .
qed

lemma first_occurrences_set [simp]: "set (first_occurrences ks) = set ks"
  by (induction ks) auto

lemma first_occurrences_distinct [simp]: "distinct (first_occurrences ks)"
  by (induction ks) auto

lemma keys_fold_update:
  "map fst (fold (\<lambda>(k, v). AList.update k v) es al)
     = map fst al @ filter (\<lambda>k. k \<notin> fst ` set al) (first_occurrences (map fst es))"
proof (induction es arbitrary: al)
  case Nil
  show ?case by simp
next
  case (Cons e es)
  obtain k v where e: "e = (k, v)" by (cases e)
  show ?case
  proof (cases "k \<in> fst ` set al")
    case True
    then have "fst ` set (AList.update k v al) = fst ` set al"
      by (auto simp: AList.dom_update)
    moreover from True have "map fst (AList.update k v al) = map fst al"
      by (simp add: update_keys)
    moreover have "filter (\<lambda>x. x \<notin> fst ` set al) (filter (\<lambda>k'. k' \<noteq> k) xs)
        = filter (\<lambda>x. x \<notin> fst ` set al) xs" for xs
      using True by (induction xs) auto
    ultimately show ?thesis using Cons [of "AList.update k v al"] e True by simp
  next
    case False
    then have "fst ` set (AList.update k v al) = insert k (fst ` set al)"
      by (simp add: AList.dom_update)
    moreover from False have "map fst (AList.update k v al) = map fst al @ [k]"
      by (simp add: update_keys)
    moreover have "filter (\<lambda>x. x \<notin> insert k (fst ` set al)) xs
        = filter (\<lambda>x. x \<notin> fst ` set al) (filter (\<lambda>k'. k' \<noteq> k) xs)" for xs
      by (induction xs) auto
    ultimately show ?thesis using Cons [of "AList.update k v al"] e False by simp
  qed
qed

lemma values_by_keys:
  "distinct (map fst al) \<Longrightarrow> map snd al = map (\<lambda>k. the (map_of al k)) (map fst al)"
proof (induction al)
  case Nil
  show ?case by simp
next
  case (Cons a al)
  obtain k v where a: "a = (k, v)" by (cases a)
  from Cons.prems a have k: "k \<notin> fst ` set al" and d: "distinct (map fst al)" by simp_all
  have "map (\<lambda>k'. the (map_of ((k, v) # al) k')) (map fst al)
      = map (\<lambda>k'. the (map_of al k')) (map fst al)"
    by (rule map_cong [OF refl]) (use k in auto)
  with Cons.IH [OF d] a show ?case by simp
qed

lemma distinct_fold_update:
  "distinct (map fst al) \<Longrightarrow> distinct (map fst (fold (\<lambda>(k, v). AList.update k v) es al))"
  by (induction es arbitrary: al) (auto simp: distinct_update)

lemma last_definition_None: "last_definition k es = None \<longleftrightarrow> k \<notin> fst ` set es"
proof (induction es)
  case Nil
  show ?case by simp
next
  case (Cons e es)
  obtain k' v where "e = (k', v)" by (cases e)
  with Cons show ?case by (cases "last_definition k es") auto
qed

lemma last_definitions_map:
  "last_definitions es
     = map (\<lambda>k. the (last_definition k es)) (first_occurrences (map fst es))"
proof -
  have "filter (\<lambda>k. last_definition k es \<noteq> None) (first_occurrences (map fst es))
      = first_occurrences (map fst es)"
    by (rule filter_True) (simp add: last_definition_None)
  then show ?thesis
    by (simp add: last_definitions_def List.map_filter_def comp_def)
qed

lemma values_fold_update:
  "map snd (fold (\<lambda>(k, v). AList.update k v) es []) = last_definitions es"
proof -
  let ?al = "fold (\<lambda>(k, v). AList.update k v) es []"
  have d: "distinct (map fst ?al)" by (rule distinct_fold_update) simp
  have k: "map fst ?al = first_occurrences (map fst es)"
    using keys_fold_update [of es "[]"] by simp
  have m: "map_of ?al k = last_definition k es" for k
    using map_of_fold_update [of es "[]"] by (simp add: last_definition_map_of)
  from values_by_keys [OF d] k m show ?thesis by (simp add: last_definitions_map)
qed

lemma create_by_last_definitions:
  "create_reference_registry_from_documents schema document =
     (if list_ex anonymous_operation document then Inl AttributeError
      else case walk_fragments (last_definitions (fragment_entries document)) schema
                  ReferenceRegistry of
             Inl e \<Rightarrow> Inl e
           | Inr r \<Rightarrow>
               walk_operations (last_definitions (operation_entries document)) schema r)"
  by (simp add: create_reference_registry_from_documents_def collect_definitions_anonymous
      collect_definitions_entries values_fold_update cong: sum.case_cong)

lemma last_definition_last:
  "k \<notin> fst ` set es2 \<Longrightarrow> last_definition k (es1 @ (k, v) # es2) = Some v"
proof (induction es1)
  case Nil
  then have "last_definition k es2 = None" by (simp add: last_definition_None)
  then show ?case by simp
next
  case (Cons e es1)
  then show ?case by (cases e) simp
qed

lemma last_definitions_set:
  "set (last_definitions es) = {v. \<exists>k. last_definition k es = Some v}"
proof (rule set_eqI)
  fix v
  have "v \<in> set (last_definitions es)
      \<longleftrightarrow> (\<exists>k \<in> fst ` set es. v = the (last_definition k es))"
    by (auto simp: last_definitions_map)
  also have "\<dots> \<longleftrightarrow> (\<exists>k. last_definition k es = Some v)"
  proof
    assume "\<exists>k \<in> fst ` set es. v = the (last_definition k es)"
    then obtain k where k: "k \<in> fst ` set es" "v = the (last_definition k es)" by blast
    from k(1) have "last_definition k es \<noteq> None" by (simp add: last_definition_None)
    with k(2) have "last_definition k es = Some v" by auto
    then show "\<exists>k. last_definition k es = Some v" ..
  next
    assume "\<exists>k. last_definition k es = Some v"
    then obtain k where k: "last_definition k es = Some v" ..
    then have "last_definition k es \<noteq> None" by simp
    then have "k \<in> fst ` set es" by (simp add: last_definition_None)
    with k show "\<exists>k \<in> fst ` set es. v = the (last_definition k es)"
      by (intro bexI [of _ k]) simp_all
  qed
  finally show "v \<in> set (last_definitions es) \<longleftrightarrow> v \<in> {v. \<exists>k. last_definition k es = Some v}"
    by simp
qed


text \<open>
  Claim C10. \<^verbatim>\<open>create_reference_registry_from_documents\<close> walks, for every name of
  a fragment and for every name of an operation, the last definition of that name, and
  no other definition: first the fragments, then the operations, each in the order in
  which the names first occur in the document (an operation without a name ends the run
  in an AttributeError). The definitions walked are exactly the last ones of their
  names, and the last one of a name is the one after which no definition of that name
  follows. So when a document has two operation definitions of one name, or two
  fragment definitions of one name, the result does not depend on the earlier of the
  two: any other definition of that name in its place gives the same result, and what
  only the earlier one refers to is not in the registry.
\<close>

theorem last_definition_walked:
  "create_reference_registry_from_documents schema document =
     (if list_ex anonymous_operation document then Inl AttributeError
      else case walk_fragments (last_definitions (fragment_entries document)) schema
                  ReferenceRegistry of
             Inl err \<Rightarrow> Inl err
           | Inr r \<Rightarrow>
               walk_operations (last_definitions (operation_entries document)) schema r)
   \<and> set (last_definitions es) = {v. \<exists>n. last_definition n es = Some v}
   \<and> (k \<notin> fst ` set es2 \<longrightarrow> last_definition k (es1 @ (k, v) # es2) = Some v)
   \<and> create_reference_registry_from_documents schema
      (ds1 @ OperationDefinitionNode (d\<lparr> name := Some k \<rparr>) # ds2
           @ OperationDefinitionNode (d'\<lparr> name := Some k \<rparr>) # ds3)
    = create_reference_registry_from_documents schema
      (ds1 @ OperationDefinitionNode (e\<lparr> name := Some k \<rparr>) # ds2
           @ OperationDefinitionNode (d'\<lparr> name := Some k \<rparr>) # ds3)
   \<and> create_reference_registry_from_documents schema
      (ds1 @ FragmentDefinitionNode k tc sels # ds2 @ FragmentDefinitionNode k tc' sels' # ds3)
    = create_reference_registry_from_documents schema
      (ds1 @ FragmentDefinitionNode k tc2 sels2 # ds2 @ FragmentDefinitionNode k tc' sels' # ds3)"
proof -
  have "collect_definitions
      (ds1 @ OperationDefinitionNode (d\<lparr> name := Some k \<rparr>) # ds2
           @ OperationDefinitionNode (d'\<lparr> name := Some k \<rparr>) # ds3) [] []
    = collect_definitions
      (ds1 @ OperationDefinitionNode (e\<lparr> name := Some k \<rparr>) # ds2
           @ OperationDefinitionNode (d'\<lparr> name := Some k \<rparr>) # ds3) [] []"
    by (rule collect_earlier_operation) simp_all
  moreover note collect_earlier_fragment [of ds1 k tc sels ds2 tc' sels' ds3 "[]" "[]" tc2 sels2]
  ultimately have earlier:
    "create_reference_registry_from_documents schema
      (ds1 @ OperationDefinitionNode (d\<lparr> name := Some k \<rparr>) # ds2
           @ OperationDefinitionNode (d'\<lparr> name := Some k \<rparr>) # ds3)
    = create_reference_registry_from_documents schema
      (ds1 @ OperationDefinitionNode (e\<lparr> name := Some k \<rparr>) # ds2
           @ OperationDefinitionNode (d'\<lparr> name := Some k \<rparr>) # ds3)"
    "create_reference_registry_from_documents schema
      (ds1 @ FragmentDefinitionNode k tc sels # ds2 @ FragmentDefinitionNode k tc' sels' # ds3)
    = create_reference_registry_from_documents schema
      (ds1 @ FragmentDefinitionNode k tc2 sels2 # ds2 @ FragmentDefinitionNode k tc' sels' # ds3)"
    by (simp_all only: create_reference_registry_from_documents_def)
  from create_by_last_definitions [of schema document] last_definitions_set [of es]
    last_definition_last [of k es2 es1 v] earlier
  show ?thesis by blast
qed

text \<open>
  Of two operations named \<open>GetPet\<close>, \<^verbatim>\<open>query GetPet { dog { breed } }\<close> and then
  \<^verbatim>\<open>query GetPet { dog { name } }\<close>, the second is the one that is walked: the
  scalar \<open>String\<close> is registered, and the enum \<open>Breed\<close>, which only the first
  selects, is not.
\<close>

theorem last_definition_walked_witness:
  "''GetPet'' \<notin> fst ` set ([] :: (string \<times> definition_node) list)
   \<and> last_definition ''GetPet''
        (operation_entries
          [OperationDefinitionNode (get_pet (FieldNode None ''dog'' (Some [FieldNode None ''breed'' None]))),
           OperationDefinitionNode (get_pet (FieldNode None ''dog'' (Some [FieldNode None ''name'' None])))])
      = Some (OperationDefinitionNode
          (get_pet (FieldNode None ''dog'' (Some [FieldNode None ''name'' None]))))
   \<and> create_reference_registry_from_documents pet_schema
        [OperationDefinitionNode (get_pet (FieldNode None ''dog'' (Some [FieldNode None ''breed'' None]))),
         OperationDefinitionNode (get_pet (FieldNode None ''dog'' (Some [FieldNode None ''name'' None])))]
      = Inr (ReferenceRegistry\<lparr> scalars := {''String''} \<rparr>)"
proof -
  let ?first = "OperationDefinitionNode
    (get_pet (FieldNode None ''dog'' (Some [FieldNode None ''breed'' None])))"
  let ?second = "OperationDefinitionNode
    (get_pet (FieldNode None ''dog'' (Some [FieldNode None ''name'' None])))"
  note walked = last_definition_walked
    [where schema = pet_schema and document = "[?first, ?second]", THEN conjunct1]
  note later = last_definition_walked
    [where k = "''GetPet''" and ?es1.0 = "[(''GetPet'', ?first)]" and ?es2.0 = "[]"
       and v = ?second, THEN conjunct2, THEN conjunct2, THEN conjunct1]
  have last: "last_definition ''GetPet'' (operation_entries [?first, ?second]) = Some ?second"
    using later by (simp add: get_pet_def)
  have "create_reference_registry_from_documents pet_schema [?first, ?second]
      = Inr (ReferenceRegistry\<lparr> scalars := {''String''} \<rparr>)"
    unfolding walked
    by (simp add: last_definitions_def List.map_filter_def get_root_type_def example_defs)
  with last show ?thesis by simp
qed


section \<open>The \<^verbatim>\<open>__typename\<close> fields\<close>

lemma alike_refl [simp]: "alike l a a"
  by (simp add: alike_def)

lemma alike_Inr [simp]: "alike l (Inr r) b = (b = Inr r)"
  by (simp add: alike_def)

lemma alike_bind:
  assumes "alike l a b" and "\<And>r. a = Inr r \<Longrightarrow> alike l (f r) (g r)"
  shows "alike l (case a of Inl e \<Rightarrow> Inl e | Inr r \<Rightarrow> f r) (case b of Inl e \<Rightarrow> Inl e | Inr r \<Rightarrow> g r)"
proof (cases a)
  case (Inl e)
  with assms(1) show ?thesis by (auto simp: alike_def split: if_splits)
next
  case (Inr r)
  with assms show ?thesis by simp
qed

lemma strip_field:
  "strip_typename ev (FieldNode a n ss) = FieldNode a n (map_option (strip_typenames ev True) ss)"
  by (cases ss) simp_all

lemma selections_of_strip:
  "\<exists>here. selections_of (strip_typename ev node) =
     (case selections_of node of Inl e \<Rightarrow> Inl e | Inr ss \<Rightarrow> Inr (strip_typenames ev here ss))"
  by (cases node rule: selections_of.cases) auto

lemma walker_alike:
  "alike ev (recurse_find_references node ty cs rg)
            (recurse_find_references (strip_typename ev node) ty cs rg)"
  "\<forall>here. alike ev (union_selections ss1 cs1 rg1)
            (union_selections (strip_typenames ev here ss1) cs1 rg1)"
  "\<forall>here. (here \<longrightarrow> ev \<or> tc2 \<noteq> None) \<longrightarrow>
          alike ev (union_inline_selections ss2 tc2 cs2 rg2)
            (union_inline_selections (strip_typenames ev here ss2) tc2 cs2 rg2)"
  "\<forall>here. alike ev (object_selections ss3 fs3 cs3 rg3)
            (object_selections (strip_typenames ev here ss3) fs3 cs3 rg3)"
  "\<forall>here. (here \<longrightarrow> ev \<or> tc4 \<noteq> None) \<longrightarrow>
          alike ev (object_inline_selections ss4 tc4 cs4 rg4)
            (object_inline_selections (strip_typenames ev here ss4) tc4 cs4 rg4)"
proof (induction node ty cs rg and ss1 cs1 rg1 and ss2 tc2 cs2 rg2 and ss3 fs3 cs3 rg3
    and ss4 tc4 cs4 rg4 rule: walker_induct)
  case (1 node u cs rg)
  obtain here where h: "selections_of (strip_typename ev node) =
     (case selections_of node of Inl e \<Rightarrow> Inl e | Inr ss \<Rightarrow> Inr (strip_typenames ev here ss))"
    using selections_of_strip by blast
  show ?case
  proof (cases "selections_of node")
    case (Inl e)
    with h show ?thesis by simp
  next
    case (Inr ss)
    with h 1 [OF Inr] show ?thesis by simp
  qed
next
  case (2 node i cs rg)
  obtain here where h: "selections_of (strip_typename ev node) =
     (case selections_of node of Inl e \<Rightarrow> Inl e | Inr ss \<Rightarrow> Inr (strip_typenames ev here ss))"
    using selections_of_strip by blast
  show ?case
  proof (cases "selections_of node")
    case (Inl e)
    with h show ?thesis by simp
  next
    case (Inr ss)
    with h 2 [OF Inr] show ?thesis by simp
  qed
next
  case (3 node ob cs rg)
  obtain here where h: "selections_of (strip_typename ev node) =
     (case selections_of node of Inl e \<Rightarrow> Inl e | Inr ss \<Rightarrow> Inr (strip_typenames ev here ss))"
    using selections_of_strip by blast
  show ?case
  proof (cases "selections_of node")
    case (Inl e)
    with h show ?thesis by simp
  next
    case (Inr ss)
    with h 3 [OF Inr] show ?thesis by simp
  qed
next
  case (11 tc sels rest cs rg)
  show ?case
  proof (intro allI)
    fix here
    let ?k = "\<lambda>rest' fl. case fl of Finished r \<Rightarrow> union_selections rest' cs r | Returned r \<Rightarrow> Inr r"
    have eq: "\<And>ss rest'. union_selections (InlineFragmentNode tc ss # rest') cs rg =
      (case union_inline_selections ss tc cs rg of Inl e \<Rightarrow> Inl e | Inr fl \<Rightarrow> ?k rest' fl)"
      by (simp split: sum.split flow.split)
    have inner: "alike ev (union_inline_selections sels tc cs rg)
        (union_inline_selections (strip_typenames ev (case tc of None \<Rightarrow> ev | Some c \<Rightarrow> True) sels) tc cs rg)"
      using 11(1) by (simp split: option.split)
    have "alike ev
        (case union_inline_selections sels tc cs rg of Inl e \<Rightarrow> Inl e | Inr fl \<Rightarrow> ?k rest fl)
        (case union_inline_selections (strip_typenames ev (case tc of None \<Rightarrow> ev | Some c \<Rightarrow> True) sels) tc cs rg
           of Inl e \<Rightarrow> Inl e | Inr fl \<Rightarrow> ?k (strip_typenames ev here rest) fl)"
    proof (rule alike_bind [OF inner])
      fix fl assume a: "union_inline_selections sels tc cs rg = Inr fl"
      show "alike ev (?k rest fl) (?k (strip_typenames ev here rest) fl)"
      proof (cases fl)
        case (Finished r)
        with 11(2) [OF a Finished] show ?thesis by simp
      next
        case (Returned r)
        then show ?thesis by simp
      qed
    qed
    then show "alike ev (union_selections (InlineFragmentNode tc sels # rest) cs rg)
       (union_selections (strip_typenames ev here (InlineFragmentNode tc sels # rest)) cs rg)"
      by (simp only: eq strip_typenames.simps strip_typename.simps is_typename.simps simp_thms if_False)
  qed
next
  case (12 a n ss rest cs rg)
  then show ?case by (simp add: strip_field)
next
  case (14 a n ss rest tc cs rg)
  show ?case
  proof (intro allI impI)
    fix here assume hc: "here \<longrightarrow> ev \<or> tc \<noteq> None"
    show "alike ev (union_inline_selections (FieldNode a n ss # rest) tc cs rg)
       (union_inline_selections (strip_typenames ev here (FieldNode a n ss # rest)) tc cs rg)"
    proof (cases tc)
      case None
      with hc show ?thesis by (cases here) (simp_all add: strip_field alike_def)
    next
      case (Some tcn)
      show ?thesis
      proof (cases "n = ''__typename''")
        case True
        from 14(1) [OF Some True] Some have "alike ev (union_inline_selections rest tc cs rg)
          (union_inline_selections (strip_typenames ev here rest) tc cs rg)" by simp
        with Some True show ?thesis by (cases here) (simp_all add: strip_field)
      next
        case False
        show ?thesis
        proof (cases "fields_of cs (get_type cs tcn)")
          case (Inl e)
          with Some False show ?thesis by (simp add: strip_field)
        next
          case fs: (Inr fs)
          show ?thesis
          proof (cases "subscript fs n")
            case (Inl e)
            with Some False fs show ?thesis by (simp add: strip_field)
          next
            case ft: (Inr ft)
            from 14(2) [OF Some False fs ft]
            have "alike ev (recurse_find_references (FieldNode a n ss) ft cs rg)
               (recurse_find_references (FieldNode a n (map_option (strip_typenames ev True) ss)) ft cs rg)"
              by (simp add: strip_field)
            from alike_bind [OF this, of "\<lambda>r. Inr (Returned r)" "\<lambda>r. Inr (Returned r)"]
            show ?thesis using Some False fs ft by (simp add: strip_field)
          qed
        qed
      qed
    qed
  qed
next
  case (18 a n ss rest fs cs rg)
  show ?case
  proof (intro allI)
    fix here
    show "alike ev (object_selections (FieldNode a n ss # rest) fs cs rg)
       (object_selections (strip_typenames ev here (FieldNode a n ss # rest)) fs cs rg)"
    proof (cases "n = ''__typename''")
      case True
      with 18(1) [OF True] show ?thesis by (simp add: strip_field)
    next
      case False
      show ?thesis
      proof (cases "subscript fs n")
        case (Inl e)
        with False show ?thesis by (simp add: strip_field)
      next
        case ft: (Inr ft)
        from 18(2) [OF False ft]
        have "alike ev (recurse_find_references (FieldNode a n ss) ft cs rg)
           (recurse_find_references (FieldNode a n (map_option (strip_typenames ev True) ss)) ft cs rg)"
          by (simp add: strip_field)
        from alike_bind [OF this, of "\<lambda>r. object_selections rest fs cs r"
            "\<lambda>r. object_selections (strip_typenames ev here rest) fs cs r"] 18(3) [OF False ft]
        show ?thesis using False ft by (simp add: strip_field)
      qed
    qed
  qed
next
  case (20 tc sels rest fs cs rg)
  show ?case
  proof (intro allI)
    fix here
    have inner: "alike ev (object_inline_selections sels tc cs rg)
        (object_inline_selections (strip_typenames ev (case tc of None \<Rightarrow> ev | Some c \<Rightarrow> True) sels) tc cs rg)"
      using 20(1) by (simp split: option.split)
    from alike_bind [OF inner, of "\<lambda>r. object_selections rest fs cs r"
        "\<lambda>r. object_selections (strip_typenames ev here rest) fs cs r"] 20(2)
    show "alike ev (object_selections (InlineFragmentNode tc sels # rest) fs cs rg)
       (object_selections (strip_typenames ev here (InlineFragmentNode tc sels # rest)) fs cs rg)"
      by simp
  qed
next
  case (22 a n ss rest tc cs rg)
  show ?case
  proof (intro allI impI)
    fix here assume hc: "here \<longrightarrow> ev \<or> tc \<noteq> None"
    show "alike ev (object_inline_selections (FieldNode a n ss # rest) tc cs rg)
       (object_inline_selections (strip_typenames ev here (FieldNode a n ss # rest)) tc cs rg)"
    proof (cases tc)
      case None
      with hc show ?thesis by (cases here) (simp_all add: strip_field alike_def)
    next
      case (Some tcn)
      show ?thesis
      proof (cases "n = ''__typename''")
        case True
        from 22(1) [OF Some True] Some have "alike ev (object_inline_selections rest tc cs rg)
          (object_inline_selections (strip_typenames ev here rest) tc cs rg)" by simp
        with Some True show ?thesis by (cases here) (simp_all add: strip_field)
      next
        case False
        show ?thesis
        proof (cases "fields_of cs (get_type cs tcn)")
          case (Inl e)
          with Some False show ?thesis by (simp add: strip_field)
        next
          case fs: (Inr fs)
          show ?thesis
          proof (cases "subscript fs n")
            case (Inl e)
            with Some False fs show ?thesis by (simp add: strip_field)
          next
            case ft: (Inr ft)
            from 22(2) [OF Some False fs ft]
            have "alike ev (recurse_find_references (FieldNode a n ss) ft cs rg)
               (recurse_find_references (FieldNode a n (map_option (strip_typenames ev True) ss)) ft cs rg)"
              by (simp add: strip_field)
            from alike_bind [OF this, of "\<lambda>r. object_inline_selections rest (Some tcn) cs r"
                "\<lambda>r. object_inline_selections (strip_typenames ev here rest) (Some tcn) cs r"]
              22(3) [OF Some False fs ft]
            show ?thesis using Some False fs ft by (simp add: strip_field)
          qed
        qed
      qed
    qed
  qed
qed (simp_all add: strip_field)


lemma definition_selections_alike:
  "alike ev (definition_selections ss ty schema rg)
     (definition_selections (strip_typenames ev here ss) ty schema rg)"
proof (induction ss ty schema rg rule: definition_selections.induct)
  case (1 ty schema registry)
  show ?case by simp
next
  case (2 a n ss rest ty schema registry)
  show ?case
  proof (cases "n = ''__typename''")
    case True
    with 2(1) [OF True] show ?thesis by (cases here) (simp_all add: strip_field)
  next
    case False
    show ?thesis
    proof (cases "fields_of schema ty")
      case (Inl e)
      with False show ?thesis by (simp add: strip_field)
    next
      case fs: (Inr fs)
      show ?thesis
      proof (cases "subscript fs n")
        case (Inl e)
        with False fs show ?thesis by (simp add: strip_field)
      next
        case ft: (Inr ft)
        from walker_alike(1) [of ev "FieldNode a n ss" ft schema registry]
        have "alike ev (recurse_find_references (FieldNode a n ss) ft schema registry)
           (recurse_find_references (FieldNode a n (map_option (strip_typenames ev True) ss))
              ft schema registry)"
          by (simp add: strip_field)
        from alike_bind [OF this, of "\<lambda>r. definition_selections rest ty schema r"
            "\<lambda>r. definition_selections (strip_typenames ev here rest) ty schema r"]
          2(2) [OF False fs ft]
        show ?thesis using False fs ft by (simp add: strip_field)
      qed
    qed
  qed
next
  case (3 n rest ty schema registry)
  then show ?case by simp
next
  case (4 tc sels rest ty schema registry)
  then show ?case by simp
qed

lemma walk_fragments_alike:
  "alike ev (walk_fragments ds schema rg) (walk_fragments (map (strip_definition ev) ds) schema rg)"
proof (induction ds schema rg rule: walk_fragments.induct)
  case (2 n tc sels rest schema registry)
  from alike_bind [OF definition_selections_alike
      [of ev sels "get_type schema tc" schema registry True],
      of "\<lambda>r. walk_fragments rest schema r"
         "\<lambda>r. walk_fragments (map (strip_definition ev) rest) schema r"] 2
  show ?case by simp
qed simp_all

lemma walk_operations_alike:
  "alike ev (walk_operations ds schema rg) (walk_operations (map (strip_definition ev) ds) schema rg)"
proof (induction ds schema rg rule: walk_operations.induct)
  case (2 d rest schema registry)
  show ?case
  proof (cases "variable_types (variable_definitions d) schema registry")
    case (Inl e)
    then show ?thesis by simp
  next
    case r1: (Inr r1)
    show ?thesis
    proof (cases "selection_set d")
      case None
      with r1 show ?thesis by simp
    next
      case (Some sels)
      from alike_bind [OF definition_selections_alike
          [of ev sels "get_root_type schema (operation d)" schema r1 True],
          of "\<lambda>r. walk_operations rest schema r"
             "\<lambda>r. walk_operations (map (strip_definition ev) rest) schema r"]
        2 [OF r1 Some]
      show ?thesis using r1 Some by simp
    qed
  qed
qed simp_all

lemma update_map_values:
  "AList.update k (g v) (map (apsnd g) al) = map (apsnd g) (AList.update k v al)"
  by (induction al) auto

lemma collect_definitions_strip:
  "collect_definitions (map (strip_definition ev) ds)
       (map (apsnd (strip_definition ev)) fd) (map (apsnd (strip_definition ev)) od)
   = (case collect_definitions ds fd od of
        Inl e \<Rightarrow> Inl e
      | Inr (fd', od') \<Rightarrow>
          Inr (map (apsnd (strip_definition ev)) fd', map (apsnd (strip_definition ev)) od'))"
proof (induction ds fd od rule: collect_definitions.induct)
  case (1 fd od)
  show ?case by simp
next
  case (2 n tc sels rest fd od)
  from 2 update_map_values
    [of n "strip_definition ev" "FragmentDefinitionNode n tc sels" fd]
  show ?case by simp
next
  case (3 d rest fd od)
  show ?case
  proof (cases "name d")
    case None
    then show ?thesis by simp
  next
    case (Some n)
    from 3 [OF Some] Some update_map_values
      [of n "strip_definition ev" "OperationDefinitionNode d" od]
    show ?thesis by simp
  qed
next
  case (4 rest fd od)
  then show ?case by simp
qed

lemma create_alike:
  "alike ev (create_reference_registry_from_documents schema document)
     (create_reference_registry_from_documents schema (map (strip_definition ev) document))"
proof (cases "collect_definitions document [] []")
  case (Inl e)
  with collect_definitions_strip [of ev document "[]" "[]"] show ?thesis
    by (simp add: create_reference_registry_from_documents_def)
next
  case (Inr p)
  obtain fd od where p: "p = (fd, od)" by (cases p)
  let ?sd = "strip_definition ev"
  from Inr p collect_definitions_strip [of ev document "[]" "[]"]
  have c: "collect_definitions (map ?sd document) [] []
      = Inr (map (apsnd ?sd) fd, map (apsnd ?sd) od)" by simp
  have m: "map snd (map (apsnd ?sd) fd) = map ?sd (map snd fd)"
    "map snd (map (apsnd ?sd) od) = map ?sd (map snd od)"
    by simp_all
  from alike_bind [OF walk_fragments_alike [of ev "map snd fd" schema ReferenceRegistry],
      of "\<lambda>r. walk_operations (map snd od) schema r"
         "\<lambda>r. walk_operations (map ?sd (map snd od)) schema r"]
    walk_operations_alike [of ev "map snd od" schema]
  show ?thesis using Inr p c
    by (simp add: create_reference_registry_from_documents_def m del: map_map cong: sum.case_cong)
qed

text \<open>
  Removing the \<^verbatim>\<open>__typename\<close> fields of all selection sets, except those that
  stand directly in an inline fragment without type condition, changes neither the
  result of \<^verbatim>\<open>recurse_find_references\<close> nor that of
  \<^verbatim>\<open>create_reference_registry_from_documents\<close>: the same registry or the same error.
  Removing every \<^verbatim>\<open>__typename\<close> field changes the result only of a run that ends
  in an AttributeError. So no such field adds a registry entry, and none is the cause
  of an UnknownType error.
\<close>

lemma typename_fields_skipped:
  "recurse_find_references (strip_typename False node) ty schema registry
      = recurse_find_references node ty schema registry
   \<and> create_reference_registry_from_documents schema (map (strip_definition False) document)
      = create_reference_registry_from_documents schema document
   \<and> (recurse_find_references node ty schema registry = Inl AttributeError
      \<or> recurse_find_references (strip_typename True node) ty schema registry
          = recurse_find_references node ty schema registry)
   \<and> (create_reference_registry_from_documents schema document = Inl AttributeError
      \<or> create_reference_registry_from_documents schema (map (strip_definition True) document)
          = create_reference_registry_from_documents schema document)"
  using walker_alike(1) [of False node ty schema registry]
    walker_alike(1) [of True node ty schema registry]
    create_alike [of False schema document] create_alike [of True schema document]
  by (simp add: alike_def split: if_splits)

text \<open>
  \<^verbatim>\<open>dog { __typename name ... on Dog { __typename breed } }\<close> registers what
  \<^verbatim>\<open>dog { name ... on Dog { breed } }\<close> registers.
\<close>

lemma typename_fields_skipped_example:
  "recurse_find_references
      (FieldNode None ''dog'' (Some [FieldNode None ''__typename'' None, FieldNode None ''name'' None,
         InlineFragmentNode (Some ''Dog'')
           [FieldNode None ''__typename'' None, FieldNode None ''breed'' None]]))
      (GraphQLObjectType ''Dog'') pet_schema ReferenceRegistry
     = Inr (ReferenceRegistry\<lparr> scalars := {''String''}, enums := {''Breed''} \<rparr>)"
  by (simp add: example_defs)

text \<open>
  Claim C8. A field named \<^verbatim>\<open>__typename\<close> is to be skipped wherever it stands in a
  selection set. In \<^verbatim>\<open>query GetPet { dog { ... { __typename } } }\<close> it stands in an
  inline fragment that has no type condition. The loops over the fields of an inline
  fragment read \<^verbatim>\<open>sub_node.type_condition.name.value\<close> before they test the name of
  the field, so the run ends in an AttributeError; the same field is skipped directly
  under \<open>dog\<close> and in \<^verbatim>\<open>... on Dog { __typename }\<close>, where the loops over the
  direct fields and over the selections of a definition test the name first.
\<close>

theorem typename_in_untyped_fragment_raises:
  "recurse_find_references
      (FieldNode None ''dog'' (Some [InlineFragmentNode None [FieldNode None ''__typename'' None]]))
      (GraphQLObjectType ''Dog'') pet_schema ReferenceRegistry = Inl AttributeError
   \<and> create_reference_registry_from_documents pet_schema
      [OperationDefinitionNode (get_pet (FieldNode None ''dog''
         (Some [InlineFragmentNode None [FieldNode None ''__typename'' None]])))]
      = Inl AttributeError
   \<and> recurse_find_references
      (FieldNode None ''dog'' (Some [InlineFragmentNode (Some ''Dog'') [FieldNode None ''__typename'' None]]))
      (GraphQLObjectType ''Dog'') pet_schema ReferenceRegistry = Inr ReferenceRegistry
   \<and> recurse_find_references
      (FieldNode None ''dog'' (Some [FieldNode None ''__typename'' None]))
      (GraphQLObjectType ''Dog'') pet_schema ReferenceRegistry = Inr ReferenceRegistry"
  by (simp add: create_reference_registry_from_documents_def get_root_type_def example_defs)

end
